theory Spec2Isabelle
  imports Main "HOL-Library.Sublist"
begin

section \<open>Strings\<close>

text \<open>
  Python strings are modelled as \<open>string\<close> (lists of characters with code points below
  256). Only the string operations that \<^verbatim>\<open>ovs.py\<close> uses are modelled, each with the
  separator being a single character, as at every call site of the source.
\<close>

text \<open>\<^verbatim>\<open>item in s\<close> on strings: \<open>item\<close> occurs as a contiguous substring of \<open>s\<close>.\<close>

fun str_in :: "string \<Rightarrow> string \<Rightarrow> bool" where
  "str_in item [] = (item = [])"
| "str_in item (c # cs) = (prefix item (c # cs) \<or> str_in item cs)"

text \<open>\<^verbatim>\<open>s.startswith(p)\<close>.\<close>

definition startswith :: "string \<Rightarrow> string \<Rightarrow> bool" where
  "startswith s p = prefix p s"

text \<open>
  \<^verbatim>\<open>s.partition(sep)\<close> restricted to the case that \<open>sep\<close> occurs: the text before and
  after the first occurrence of \<open>sep\<close>, or \<open>None\<close> when \<open>sep\<close> does not occur.
\<close>

fun split_at :: "char \<Rightarrow> string \<Rightarrow> (string \<times> string) option" where
  "split_at sep [] = None"
| "split_at sep (c # cs) =
     (if c = sep then Some ([], cs)
      else (case split_at sep cs of
              None \<Rightarrow> None
            | Some (a, b) \<Rightarrow> Some (c # a, b)))"

text \<open>\<^verbatim>\<open>s.split(sep, maxsplit)\<close>: at most \<open>maxsplit\<close> splits, from the left.\<close>

fun splitn :: "char \<Rightarrow> nat \<Rightarrow> string \<Rightarrow> string list" where
  "splitn sep 0 s = [s]"
| "splitn sep (Suc n) s =
     (case split_at sep s of
        None \<Rightarrow> [s]
      | Some (a, b) \<Rightarrow> a # splitn sep n b)"

text \<open>
  \<^verbatim>\<open>s.split(sep)\<close> without a limit: a string of length \<open>n\<close> holds at most \<open>n\<close>
  separators.
\<close>

definition split :: "char \<Rightarrow> string \<Rightarrow> string list" where
  "split sep s = splitn sep (length s) s"

text \<open>\<^verbatim>\<open>s.strip(c)\<close> for a single character \<open>c\<close>.\<close>

definition strip :: "char \<Rightarrow> string \<Rightarrow> string" where
  "strip c s = rev (dropWhile (\<lambda>x. x = c) (rev (dropWhile (\<lambda>x. x = c) s)))"

text \<open>
  \<^verbatim>\<open>s.splitlines()\<close>: the line boundaries of Python among the code points below 256
  are LF, CR, CR LF, VT, FF, FS, GS, RS and NEL; a final line boundary does not open
  an empty last line.
\<close>

definition is_linebreak :: "char \<Rightarrow> bool" where
  "is_linebreak c \<longleftrightarrow>
     c \<in> {CHR 0x0A, CHR 0x0D, CHR 0x0B, CHR 0x0C, CHR 0x1C, CHR 0x1D, CHR 0x1E, CHR 0x85}"

fun splitlines_from :: "string \<Rightarrow> string \<Rightarrow> string list" where
  "splitlines_from cur [] = (if cur = [] then [] else [cur])"
| "splitlines_from cur [c] =
     (if is_linebreak c then [cur] else [cur @ [c]])"
| "splitlines_from cur (c # d # cs) =
     (if c = CHR 0x0D \<and> d = CHR 0x0A then cur # splitlines_from [] cs
      else if is_linebreak c then cur # splitlines_from [] (d # cs)
      else splitlines_from (cur @ [c]) (d # cs))"

definition splitlines :: "string \<Rightarrow> string list" where
  "splitlines s = splitlines_from [] s"

section \<open>External processes and their trace\<close>

text \<open>
  Every call of \<^verbatim>\<open>subprocess\<close> is recorded, in the order of the calls, as an event:
  which function of \<^verbatim>\<open>subprocess\<close> was called and with which argument vector.
  A command that changes the database is always run through \<^verbatim>\<open>check_call\<close>; the
  queries are run through \<^verbatim>\<open>check_output\<close>, \<^verbatim>\<open>run\<close> and \<^verbatim>\<open>call\<close>.
\<close>

datatype call_kind = CheckCall | CheckOutput | Run | Call

type_synonym event = "call_kind \<times> string list"
type_synonym trace = "event list"

text \<open>
  What a started process gives back: its exit status (negative when killed by a signal)
  and its standard output as text; or the process could not be started at all.
\<close>

datatype proc_result = Exited int string | NotStarted

text \<open>
  The world outside the program. The answer of a command may depend on everything
  that was run before it, so \<open>respond\<close> takes the trace so far.
  \<open>path_exists_at_import\<close> is \<^verbatim>\<open>os.path.exists\<close> when the module is loaded (it fixes
  \<^verbatim>\<open>OVS_VSCTL_PATH\<close>), \<open>path_exists\<close> is \<^verbatim>\<open>os.path.exists\<close> when the cleanup runs.
\<close>

record world =
  path_exists_at_import :: "string \<Rightarrow> bool"
  path_exists :: "string \<Rightarrow> bool"
  respond :: "trace \<Rightarrow> string list \<Rightarrow> proc_result"

datatype error =
    OvsDbServerNotInstalled string
  | OvsDbServerNotRunning string
  | Exception string string
  | CalledProcessError int "string list"
  | OSError "string list"
  | IndexError
  | ValueError

type_synonym 'a res = "(error + 'a) \<times> trace"

text \<open>Sequencing: an error ends the run, as a raised exception that nobody catches.\<close>

definition then_do :: "'a res \<Rightarrow> ('a \<Rightarrow> trace \<Rightarrow> 'b res) \<Rightarrow> 'b res" where
  "then_do r f = (case r of (Inl e, tr) \<Rightarrow> (Inl e, tr) | (Inr x, tr) \<Rightarrow> f x tr)"

text \<open>A \<^verbatim>\<open>for\<close> loop over a list whose body may raise.\<close>

fun for_each :: "('a \<Rightarrow> trace \<Rightarrow> unit res) \<Rightarrow> 'a list \<Rightarrow> trace \<Rightarrow> unit res" where
  "for_each body [] tr = (Inr (), tr)"
| "for_each body (x # xs) tr = then_do (body x tr) (\<lambda>_. for_each body xs)"

text \<open>\<^verbatim>\<open>subprocess.check_call\<close>: raises on a non-zero exit status.\<close>

definition check_call :: "world \<Rightarrow> string list \<Rightarrow> trace \<Rightarrow> unit res" where
  "check_call w args tr =
     (case respond w tr args of
        NotStarted \<Rightarrow> (Inl (OSError args), tr @ [(CheckCall, args)])
      | Exited rc out \<Rightarrow>
          if rc = 0 then (Inr (), tr @ [(CheckCall, args)])
          else (Inl (CalledProcessError rc args), tr @ [(CheckCall, args)]))"

text \<open>\<^verbatim>\<open>subprocess.check_output(..., text=True)\<close>: the output, or raises as above.\<close>

definition check_output :: "world \<Rightarrow> string list \<Rightarrow> trace \<Rightarrow> string res" where
  "check_output w args tr =
     (case respond w tr args of
        NotStarted \<Rightarrow> (Inl (OSError args), tr @ [(CheckOutput, args)])
      | Exited rc out \<Rightarrow>
          if rc = 0 then (Inr out, tr @ [(CheckOutput, args)])
          else (Inl (CalledProcessError rc args), tr @ [(CheckOutput, args)]))"

text \<open>\<^verbatim>\<open>subprocess.run(...).returncode\<close>: the exit status, whatever it is.\<close>

definition run_returncode :: "world \<Rightarrow> string list \<Rightarrow> trace \<Rightarrow> int res" where
  "run_returncode w args tr =
     (case respond w tr args of
        NotStarted \<Rightarrow> (Inl (OSError args), tr @ [(Run, args)])
      | Exited rc out \<Rightarrow> (Inr rc, tr @ [(Run, args)]))"

text \<open>\<^verbatim>\<open>subprocess.call\<close>: the exit status, whatever it is.\<close>

definition subprocess_call :: "world \<Rightarrow> string list \<Rightarrow> trace \<Rightarrow> int res" where
  "subprocess_call w args tr =
     (case respond w tr args of
        NotStarted \<Rightarrow> (Inl (OSError args), tr @ [(Call, args)])
      | Exited rc out \<Rightarrow> (Inr rc, tr @ [(Call, args)]))"

section \<open>The module \<^verbatim>\<open>netplan_cli/cli/ovs.py\<close>\<close>

text \<open>
  Names that start with an underscore in the source (\<^verbatim>\<open>_del_col\<close>, \<^verbatim>\<open>_ovs_active\<close>, ...)
  are written here without it. Calls of \<^verbatim>\<open>logging.debug\<close> are left out.
\<close>

definition OPENVSWITCH_OVS_VSCTL :: string where
  "OPENVSWITCH_OVS_VSCTL = ''ovs-vsctl''"

definition DEFAULTS :: "string \<rightharpoonup> string" where
  "DEFAULTS = [''mcast_snooping_enable'' \<mapsto> ''false'', ''rstp_enable'' \<mapsto> ''false'']"

definition GLOBALS :: "string \<rightharpoonup> string \<times> string" where
  "GLOBALS =
     [''set-ssl'' \<mapsto> (''del-ssl'', ''get-ssl''),
      ''set-fail-mode'' \<mapsto> (''del-fail-mode'', ''get-fail-mode''),
      ''set-controller'' \<mapsto> (''del-controller'', ''get-controller'')]"

definition ovs_vsctl_path :: "world \<Rightarrow> string" where
  "ovs_vsctl_path w =
     (if path_exists_at_import w (''/snap/bin/'' @ OPENVSWITCH_OVS_VSCTL)
      then ''/snap/bin/'' @ OPENVSWITCH_OVS_VSCTL
      else ''/usr/bin/'' @ OPENVSWITCH_OVS_VSCTL)"

definition OVS_VSCTL_PATH :: "world \<Rightarrow> string" where
  "OVS_VSCTL_PATH w = ovs_vsctl_path w"

definition ovs_installed :: "world \<Rightarrow> bool" where
  "ovs_installed w = path_exists w (OVS_VSCTL_PATH w)"

definition ovs_active :: "world \<Rightarrow> trace \<Rightarrow> bool res" where
  "ovs_active w tr =
     then_do (subprocess_call w [OVS_VSCTL_PATH w, ''show''] tr) (\<lambda>rc tr'. (Inr (rc = 0), tr'))"

text \<open>\<^verbatim>\<open>_del_col\<close>: clean up a value from a column (\<^verbatim>\<open>column=value\<close>).\<close>

definition del_col :: "world \<Rightarrow> string \<Rightarrow> string \<Rightarrow> string \<Rightarrow> string \<Rightarrow> trace \<Rightarrow> unit res" where
  "del_col w type iface column val tr =
     (case DEFAULTS column of
        None \<Rightarrow> check_call w [OVS_VSCTL_PATH w, ''remove'', type, iface, column, val] tr
      | Some dflt \<Rightarrow>
          if dflt \<noteq> [] \<and> dflt \<noteq> val
          then check_call w [OVS_VSCTL_PATH w, ''set'', type, iface, column @ ''='' @ dflt] tr
          else (Inr (), tr))"

text \<open>\<^verbatim>\<open>_del_dict\<close>: clean up a value from a dictionary (\<^verbatim>\<open>column:key=value\<close>).\<close>

definition del_dict ::
  "world \<Rightarrow> string \<Rightarrow> string \<Rightarrow> string \<Rightarrow> string \<Rightarrow> string \<Rightarrow> trace \<Rightarrow> unit res" where
  "del_dict w type iface column key val tr =
     check_call w
       [OVS_VSCTL_PATH w, ''remove'', type, iface, column,
        key @ ''='' @ [CHR 0x22] @ val @ [CHR 0x22]] tr"

text \<open>
  \<^verbatim>\<open>_del_global\<close>: clean up commands from the global namespace. The local \<^verbatim>\<open>iface\<close>
  becomes \<^verbatim>\<open>None\<close> for \<^verbatim>\<open>del-ssl\<close>; \<^verbatim>\<open>if iface\<close> holds for a string that is not empty.
\<close>

definition global_args :: "world \<Rightarrow> string \<Rightarrow> string option \<Rightarrow> string list" where
  "global_args w cmd iface =
     (case iface of
        None \<Rightarrow> [OVS_VSCTL_PATH w, cmd]
      | Some i \<Rightarrow> if i \<noteq> [] then [OVS_VSCTL_PATH w, cmd] @ [i] else [OVS_VSCTL_PATH w, cmd])"

definition del_global :: "world \<Rightarrow> string \<Rightarrow> string \<Rightarrow> string \<Rightarrow> string \<Rightarrow> trace \<Rightarrow> unit res" where
  "del_global w type iface key val tr =
     (case GLOBALS key of
        None \<Rightarrow> (Inl (Exception ''Reset command unknown for:'' key), tr)
      | Some (del_cmd, get_cmd) \<Rightarrow>
          let iface' = (if del_cmd = ''del-ssl'' then None else Some iface) in
          if del_cmd \<noteq> [] then
            let args_get = global_args w get_cmd iface';
                args_del = global_args w del_cmd iface'
            in then_do (check_output w args_get tr)
                 (\<lambda>out tr'.
                    if list_all (\<lambda>item. str_in item out) (split CHR '','' val)
                    then check_call w args_del tr'
                    else (Inr (), tr'))
          else (Inl (Exception ''Reset command unknown for:'' key), tr))"

text \<open>The last command of \<^verbatim>\<open>clear_setting\<close>: clean up the tag itself.\<close>

definition remove_tag :: "world \<Rightarrow> string \<Rightarrow> string \<Rightarrow> string \<Rightarrow> string list" where
  "remove_tag w type iface setting =
     [OVS_VSCTL_PATH w, ''remove'', type, iface, ''external-ids'', setting]"

text \<open>
  \<^verbatim>\<open>clear_setting\<close>: check if this setting is in a dict or a column and delete
  accordingly. \<^verbatim>\<open>split[1]\<close> raises \<^verbatim>\<open>IndexError\<close> when the setting holds no \<^verbatim>\<open>/\<close>.
\<close>

definition clear_setting :: "world \<Rightarrow> string \<Rightarrow> string \<Rightarrow> string \<Rightarrow> string \<Rightarrow> trace \<Rightarrow> unit res" where
  "clear_setting w type iface setting val tr =
     (let split = splitn CHR ''/'' 2 setting in
      if length split < 2 then (Inl IndexError, tr)
      else
        let col = split ! 1 in
        then_do
          (if col = ''global'' \<and> length split > 2 then del_global w type iface (split ! 2) val tr
           else if length split > 2 then del_dict w type iface (split ! 1) (split ! 2) val tr
           else del_col w type iface (split ! 1) val tr)
          (\<lambda>_. check_call w (remove_tag w type iface setting)))"

text \<open>
  The declared configuration: \<^verbatim>\<open>config_manager.netdefs\<close> after
  \<^verbatim>\<open>config_manager.parse()\<close>, a dictionary from interface names to definitions, kept as
  the list of its items (the source iterates over its keys).
\<close>

record netdef =
  backend :: string

definition is_ovs_interface :: "string \<Rightarrow> (string \<times> netdef) list \<Rightarrow> bool" where
  "is_ovs_interface iface np_interface_dict =
     (case map_of np_interface_dict iface of
        None \<Rightarrow> False
      | Some np_def \<Rightarrow> backend np_def = ''OpenVSwitch'')"

definition ovs_ifaces_of :: "(string \<times> netdef) list \<Rightarrow> string set" where
  "ovs_ifaces_of netdefs = set (filter (\<lambda>i. is_ovs_interface i netdefs) (map fst netdefs))"

text \<open>The query of both steps: list the rows of a table with the given columns.\<close>

definition list_cmd :: "world \<Rightarrow> string \<Rightarrow> string \<Rightarrow> string list" where
  "list_cmd w cols t =
     [OVS_VSCTL_PATH w, ''--columns='' @ cols, ''-f'', ''csv'', ''-d'', ''bare'',
      ''--no-headings'', ''list'', t]"

text \<open>Step 1, the body of the loop over the lines of one table \<open>t = (table, command)\<close>.\<close>

definition step1_line ::
  "world \<Rightarrow> string set \<Rightarrow> string \<times> string \<Rightarrow> string \<Rightarrow> trace \<Rightarrow> unit res" where
  "step1_line w ovs_ifaces t line tr =
     (if str_in ''netplan=true'' line then
        (case split CHR '','' line of
           [] \<Rightarrow> (Inl IndexError, tr)
         | iface # _ \<Rightarrow>
             if iface \<in> ovs_ifaces then (Inr (), tr)
             else if fst t = ''Interface'' then
               then_do (run_returncode w [OVS_VSCTL_PATH w, ''br-exists'', iface] tr)
                 (\<lambda>rc tr'.
                    if rc > 0
                    then check_call w [OVS_VSCTL_PATH w, ''--if-exists'', ''del-bond-iface'', iface] tr'
                    else check_call w [OVS_VSCTL_PATH w, ''--if-exists'', snd t, iface] tr')
             else check_call w [OVS_VSCTL_PATH w, ''--if-exists'', snd t, iface] tr)
      else (Inr (), tr))"

definition step1_table :: "world \<Rightarrow> string set \<Rightarrow> string \<times> string \<Rightarrow> trace \<Rightarrow> unit res" where
  "step1_table w ovs_ifaces t tr =
     then_do (check_output w (list_cmd w ''name,external-ids'' (fst t)) tr)
       (\<lambda>out. for_each (step1_line w ovs_ifaces t) (splitlines out))"

definition step1 :: "world \<Rightarrow> string set \<Rightarrow> trace \<Rightarrow> unit res" where
  "step1 w ovs_ifaces tr =
     for_each (step1_table w ovs_ifaces)
       [(''Port'', ''del-port''), (''Bridge'', ''del-br''), (''Interface'', ''del-br'')] tr"

text \<open>Step 2, the body of the loop over the entries of one row.\<close>

definition step2_entry :: "world \<Rightarrow> string \<Rightarrow> string \<Rightarrow> string \<Rightarrow> trace \<Rightarrow> unit res" where
  "step2_entry w t iface entry tr =
     (if startswith entry ''netplan/'' \<and> str_in ''='' entry then
        (case splitn CHR ''='' 1 entry of
           [setting, val] \<Rightarrow> clear_setting w t iface setting val tr
         | _ \<Rightarrow> (Inl ValueError, tr))
      else (Inr (), tr))"

definition step2_line :: "world \<Rightarrow> string \<Rightarrow> string \<Rightarrow> trace \<Rightarrow> unit res" where
  "step2_line w t line tr =
     (if str_in ''netplan/'' line then
        (if t \<noteq> ''Open_vSwitch'' then
           (case splitn CHR '','' 1 line of
              [iface, extids] \<Rightarrow>
                for_each (step2_entry w t iface) (split CHR '' '' (strip (CHR 0x22) extids)) tr
            | _ \<Rightarrow> (Inl ValueError, tr))
         else for_each (step2_entry w t ''.'') (split CHR '' '' (strip (CHR 0x22) line)) tr)
      else (Inr (), tr))"

definition step2_cols :: "string \<Rightarrow> string" where
  "step2_cols t =
     (if t = ''Open_vSwitch'' then ''external-ids''
      else if t = ''Controller'' then ''_uuid,external-ids''
      else ''name,external-ids'')"

definition step2_table :: "world \<Rightarrow> string \<Rightarrow> trace \<Rightarrow> unit res" where
  "step2_table w t tr =
     then_do (check_output w (list_cmd w (step2_cols t) t) tr)
       (\<lambda>out. for_each (step2_line w t) (splitlines out))"

definition step2 :: "world \<Rightarrow> trace \<Rightarrow> unit res" where
  "step2 w tr =
     for_each (step2_table w)
       [''Port'', ''Bridge'', ''Interface'', ''Open_vSwitch'', ''Controller''] tr"

text \<open>
  \<^verbatim>\<open>apply_ovs_cleanup\<close>. The parameters \<^verbatim>\<open>ovs_old\<close> and \<^verbatim>\<open>ovs_current\<close> of the source are
  not used by it; \<open>netdefs\<close> is what \<^verbatim>\<open>config_manager.parse()\<close> leaves in
  \<^verbatim>\<open>config_manager.netdefs\<close> (the parser belongs to another module, and a run in which it
  raises is not modelled).
\<close>

definition apply_ovs_cleanup :: "world \<Rightarrow> (string \<times> netdef) list \<Rightarrow> trace \<Rightarrow> unit res" where
  "apply_ovs_cleanup w netdefs tr =
     (if \<not> ovs_installed w
      then (Inl (OvsDbServerNotInstalled
                  (''Cannot apply OpenvSwitch cleanup: ovs-vsctl is '' @
                   [CHR 0x27] @ ''not-found'' @ [CHR 0x27])), tr)
      else
        then_do (ovs_active w tr)
          (\<lambda>active tr'.
             if \<not> active
             then (Inl (OvsDbServerNotRunning ''OpenvSwitch database is not running''), tr')
             else
               then_do (step1 w (ovs_ifaces_of netdefs) tr') (\<lambda>_. step2 w)))"

section \<open>Properties of traces and results\<close>

text \<open>
  \<open>emits P f\<close>: whatever the trace before, \<open>f\<close> only appends events, and every event
  it appends satisfies \<open>P\<close>.
\<close>

definition emits :: "(event \<Rightarrow> bool) \<Rightarrow> (trace \<Rightarrow> 'a res) \<Rightarrow> bool" where
  "emits P f \<longleftrightarrow> (\<forall>tr. \<exists>ext. snd (f tr) = tr @ ext \<and> list_all P ext)"

text \<open>
  A deletion of a stale object, as step 1 runs it: \<^verbatim>\<open>ovs-vsctl --if-exists <cmd> <iface>\<close>
  through \<^verbatim>\<open>check_call\<close>; \<open>stale_delete\<close> fixes the command.
\<close>

definition is_delete :: "event \<Rightarrow> bool" where
  "is_delete e \<longleftrightarrow> fst e = CheckCall \<and> length (snd e) = 4 \<and> snd e ! 1 = ''--if-exists''"

definition stale_delete :: "world \<Rightarrow> string \<Rightarrow> event \<Rightarrow> bool" where
  "stale_delete w cmd e \<longleftrightarrow>
     fst e = CheckCall \<and> length (snd e) = 4 \<and>
     take 3 (snd e) = [OVS_VSCTL_PATH w, ''--if-exists'', cmd]"

text \<open>The probe \<^verbatim>\<open>ovs-vsctl br-exists <iface>\<close> through \<^verbatim>\<open>subprocess.run\<close>.\<close>

definition br_exists_probe :: "world \<Rightarrow> event \<Rightarrow> bool" where
  "br_exists_probe w e \<longleftrightarrow>
     fst e = Run \<and> length (snd e) = 3 \<and> take 2 (snd e) = [OVS_VSCTL_PATH w, ''br-exists'']"

text \<open>
  The events of one table in step 1: none at all (the run has ended before), or the
  query that lists the table followed by events that satisfy \<open>allowed\<close>.
\<close>

definition table_segment :: "world \<Rightarrow> string \<Rightarrow> (event \<Rightarrow> bool) \<Rightarrow> trace \<Rightarrow> bool" where
  "table_segment w t allowed seg \<longleftrightarrow>
     (case seg of
        [] \<Rightarrow> True
      | e # es \<Rightarrow> e = (CheckOutput, list_cmd w ''name,external-ids'' t) \<and> list_all allowed es)"

text \<open>
  The result is neither the \<^verbatim>\<open>IndexError\<close> of an index out of range nor the
  \<^verbatim>\<open>ValueError\<close> of an unpacking with the wrong number of values.
\<close>

definition no_unpack_error :: "unit res \<Rightarrow> bool" where
  "no_unpack_error r \<longleftrightarrow> fst r \<noteq> Inl IndexError \<and> fst r \<noteq> Inl ValueError"



section \<open>Example worlds\<close>

text \<open>
  A world in which \<^verbatim>\<open>/snap/bin/ovs-vsctl\<close> does not exist, so that the tool is
  \<^verbatim>\<open>/usr/bin/ovs-vsctl\<close>, and in which the answer of a command depends on its argument
  vector only.
\<close>

definition example_world :: "bool \<Rightarrow> (string list \<Rightarrow> proc_result) \<Rightarrow> world" where
  "example_world installed answer =
     \<lparr>path_exists_at_import = (\<lambda>_. False), path_exists = (\<lambda>_. installed),
      respond = (\<lambda>_. answer)\<rparr>"

definition quiet_world :: world where
  "quiet_world = example_world True (\<lambda>_. Exited 0 [])"

text \<open>A world in which \<^verbatim>\<open>get-controller br0\<close> prints \<open>out\<close>.\<close>

definition controller_world :: "string \<Rightarrow> world" where
  "controller_world out =
     example_world True
       (\<lambda>args. if args = [''/usr/bin/ovs-vsctl'', ''get-controller'', ''br0'']
               then Exited 0 out else Exited 0 [])"

text \<open>
  A world with a stale port, a stale bridge and a stale interface that is not a bridge,
  each marked \<^verbatim>\<open>netplan=true\<close>.
\<close>

definition stale_world :: world where
  "stale_world =
     example_world True
       (\<lambda>args.
          if args = [''/usr/bin/ovs-vsctl'', ''--columns=name,external-ids'', ''-f'', ''csv'',
                     ''-d'', ''bare'', ''--no-headings'', ''list'', ''Port'']
          then Exited 0 ''bond0,netplan=true\<newline>''
          else if args = [''/usr/bin/ovs-vsctl'', ''--columns=name,external-ids'', ''-f'', ''csv'',
                     ''-d'', ''bare'', ''--no-headings'', ''list'', ''Bridge'']
          then Exited 0 ''ovs1,netplan=true\<newline>''
          else if args = [''/usr/bin/ovs-vsctl'', ''--columns=name,external-ids'', ''-f'', ''csv'',
                     ''-d'', ''bare'', ''--no-headings'', ''list'', ''Interface'']
          then Exited 0 ''patch0,netplan=true\<newline>''
          else if args = [''/usr/bin/ovs-vsctl'', ''br-exists'', ''patch0'']
          then Exited 2 []
          else Exited 0 [])"

text \<open>
  A world with the bridge \<^verbatim>\<open>ovs0\<close>, marked \<^verbatim>\<open>netplan=true\<close>, and the bridge \<^verbatim>\<open>legacy0\<close>
  of another tool, whose only entry in \<^verbatim>\<open>external-ids\<close> has the key \<^verbatim>\<open>not-netplan\<close> and
  the value \<^verbatim>\<open>true\<close>.
\<close>

definition legacy_world :: world where
  "legacy_world =
     example_world True
       (\<lambda>args.
          if args = [''/usr/bin/ovs-vsctl'', ''--columns=name,external-ids'', ''-f'', ''csv'',
                     ''-d'', ''bare'', ''--no-headings'', ''list'', ''Bridge'']
          then Exited 0 ''ovs0,netplan=true\<newline>legacy0,not-netplan=true\<newline>''
          else Exited 0 [])"



section \<open>Basic facts\<close>

lemma str_in_iff_sublist: "str_in xs ys \<longleftrightarrow> sublist xs ys"
  by (induction ys) (auto simp: sublist_Cons_right)

lemma OVS_VSCTL_PATH_example [simp]:
  "OVS_VSCTL_PATH (example_world installed answer) = ''/usr/bin/ovs-vsctl''"
  by (simp add: OVS_VSCTL_PATH_def ovs_vsctl_path_def example_world_def OPENVSWITCH_OVS_VSCTL_def)

lemma respond_example [simp]: "respond (example_world installed answer) tr = answer"
  by (simp add: example_world_def)

lemma ovs_installed_example [simp]: "ovs_installed (example_world installed answer) = installed"
  by (simp add: ovs_installed_def example_world_def)

lemma then_do_Inl [simp]: "then_do (Inl e, tr) f = (Inl e, tr)"
  by (simp add: then_do_def)

lemma then_do_Inr [simp]: "then_do (Inr x, tr) f = f x tr"
  by (simp add: then_do_def)

lemma snd_check_call [simp]: "snd (check_call w args tr) = tr @ [(CheckCall, args)]"
  by (simp add: check_call_def split: proc_result.split)

lemma snd_check_output [simp]: "snd (check_output w args tr) = tr @ [(CheckOutput, args)]"
  by (simp add: check_output_def split: proc_result.split)

lemma check_output_Exited_0:
  "respond w tr args = Exited 0 out \<Longrightarrow>
   check_output w args tr = (Inr out, tr @ [(CheckOutput, args)])"
  by (simp add: check_output_def)

lemma DEFAULTS_Some: "DEFAULTS column = Some d \<Longrightarrow> d = ''false''"
  by (auto simp: DEFAULTS_def split: if_splits)

lemma snd_subprocess_call [simp]: "snd (subprocess_call w args tr) = tr @ [(Call, args)]"
  by (simp add: subprocess_call_def split: proc_result.split)

lemma GLOBALS_Some_nonempty: "GLOBALS key = Some (del_cmd, get_cmd) \<Longrightarrow> del_cmd \<noteq> []"
  by (auto simp: GLOBALS_def split: if_splits)

lemma splitn_global:
  "splitn CHR ''/'' 2 (''netplan/global/'' @ key) = [''netplan'', ''global'', key]"
  by (simp add: numeral_2_eq_2)

subsection \<open>Splitting\<close>

lemma split_at_None_iff: "split_at sep s = None \<longleftrightarrow> sep \<notin> set s"
  by (induction s) (auto split: option.splits)

lemma split_at_SomeD: "split_at sep s = Some (a, b) \<Longrightarrow> s = a @ sep # b \<and> sep \<notin> set a"
  by (induction s arbitrary: a) (auto split: if_splits option.splits)

lemma str_in_single: "str_in [c] s \<longleftrightarrow> c \<in> set s"
  by (induction s) auto

lemma length_splitn_le: "length (splitn sep n s) \<le> Suc n"
  by (induction n arbitrary: s) (auto split: option.splits)

lemma splitn_nonempty: "splitn sep n s \<noteq> []"
  by (cases n) (auto split: option.splits)

lemma length_splitn_ge2: "sep \<in> set s \<Longrightarrow> 2 \<le> length (splitn sep (Suc n) s)"
proof -
  assume "sep \<in> set s"
  then obtain a b where "split_at sep s = Some (a, b)"
    using split_at_None_iff [of sep s] by (cases "split_at sep s") auto
  then show ?thesis
    using splitn_nonempty [of sep n b] by (cases "splitn sep n b") simp_all
qed

lemma splitn_once:
  assumes "sep \<in> set s"
  shows "\<exists>a b. splitn sep 1 s = [a, b] \<and> s = a @ sep # b \<and> sep \<notin> set a"
proof -
  from assms obtain a b where ab: "split_at sep s = Some (a, b)"
    using split_at_None_iff [of sep s] by (cases "split_at sep s") auto
  then have "splitn sep 1 s = [a, b]" by simp
  with split_at_SomeD [OF ab] show ?thesis by blast
qed

lemma prefix_before_sep:
  assumes "prefix p (a @ sep # b)" and "sep \<notin> set p"
  shows "prefix p a"
proof -
  from assms(1) consider "prefix p a" | us where "p = a @ us" "prefix us (sep # b)"
    by (auto simp: prefix_append)
  then show ?thesis
  proof cases
    case 1 then show ?thesis .
  next
    case 2
    with assms(2) have "us = []" by (cases us) auto
    with 2 show ?thesis by simp
  qed
qed

lemma netplan_prefix_has_slash: "prefix ''netplan/'' s \<Longrightarrow> CHR ''/'' \<in> set s"
  by (auto simp: prefix_def)

lemma no_unpack_error_check_call [simp]: "no_unpack_error (check_call w args tr)"
  by (simp add: no_unpack_error_def check_call_def split: proc_result.split)

lemma no_unpack_error_Inr [simp]: "no_unpack_error (Inr (), tr)"
  by (simp add: no_unpack_error_def)

lemma no_unpack_error_then_do:
  "fst r \<noteq> Inl IndexError \<Longrightarrow> fst r \<noteq> Inl ValueError \<Longrightarrow>
   (\<And>x tr. no_unpack_error (f x tr)) \<Longrightarrow> no_unpack_error (then_do r f)"
  by (cases r) (auto simp: then_do_def no_unpack_error_def split: sum.splits)

lemma no_unpack_error_del_col: "no_unpack_error (del_col w type iface column val tr)"
  by (simp add: del_col_def split: option.split)

lemma no_unpack_error_del_dict: "no_unpack_error (del_dict w type iface column key val tr)"
  by (simp add: del_dict_def)

lemma fst_check_output: 
  "fst (check_output w args tr) \<noteq> Inl IndexError \<and> fst (check_output w args tr) \<noteq> Inl ValueError"
  by (simp add: check_output_def split: proc_result.split)

lemma no_unpack_error_del_global: "no_unpack_error (del_global w type iface key val tr)"
proof (cases "GLOBALS key")
  case None
  then show ?thesis by (simp add: del_global_def no_unpack_error_def)
next
  case (Some p)
  obtain d g where p: "p = (d, g)" by (cases p)
  show ?thesis
    using Some p fst_check_output
    by (auto simp: del_global_def Let_def no_unpack_error_def [of "(Inl _, _)"]
          intro!: no_unpack_error_then_do)
qed

lemma no_unpack_error_clear_setting:
  assumes "2 \<le> length (splitn CHR ''/'' 2 setting)"
  shows "no_unpack_error (clear_setting w type iface setting val tr)"
proof -
  have h: "no_unpack_error r \<Longrightarrow>
        no_unpack_error (then_do r (\<lambda>_. check_call w (remove_tag w type iface setting)))" for r
    by (rule no_unpack_error_then_do) (simp_all add: no_unpack_error_def [of r])
  show ?thesis
    using assms
    by (auto simp: clear_setting_def Let_def no_unpack_error_del_col no_unpack_error_del_dict
          no_unpack_error_del_global intro!: h)
qed

lemma del_global_known:
  assumes "GLOBALS key = Some (del_cmd, get_cmd)"
    and "args_get = global_args w get_cmd (if del_cmd = ''del-ssl'' then None else Some iface)"
    and "args_del = global_args w del_cmd (if del_cmd = ''del-ssl'' then None else Some iface)"
    and "respond w tr args_get = Exited 0 out"
  shows "del_global w type iface key val tr =
          (if list_all (\<lambda>item. str_in item out) (split CHR '','' val)
           then check_call w args_del (tr @ [(CheckOutput, args_get)])
           else (Inr (), tr @ [(CheckOutput, args_get)]))"
proof -
  have ne: "del_cmd \<noteq> []"
    using assms(1) by (rule GLOBALS_Some_nonempty)
  have out: "check_output w args_get tr = (Inr out, tr @ [(CheckOutput, args_get)])"
    using assms(4) by (rule check_output_Exited_0)
  show ?thesis
    using assms(1) ne out
    by (simp add: del_global_def Let_def assms(2) [symmetric] assms(3) [symmetric])
qed

subsection \<open>The example worlds and inputs\<close>

lemma quiet_simps [simp]:
  "OVS_VSCTL_PATH quiet_world = ''/usr/bin/ovs-vsctl''"
  "respond quiet_world tr = (\<lambda>_. Exited 0 [])"
  by (simp_all add: quiet_world_def)

lemma controller_simps [simp]:
  "OVS_VSCTL_PATH (controller_world out) = ''/usr/bin/ovs-vsctl''"
  "respond (controller_world out) tr =
     (\<lambda>args. if args = [''/usr/bin/ovs-vsctl'', ''get-controller'', ''br0'']
             then Exited 0 out else Exited 0 [])"
  by (simp_all add: controller_world_def)

lemma splitn_examples:
  "splitn CHR ''/'' 2 ''netplan/global/set-fail-mode'' = [''netplan'', ''global'', ''set-fail-mode'']"
  "splitn CHR ''/'' 2 ''netplan/global/set-controller'' = [''netplan'', ''global'', ''set-controller'']"
  "splitn CHR ''/'' 2 ''netplan/external-ids/iface-id'' = [''netplan'', ''external-ids'', ''iface-id'']"
  "splitn CHR ''/'' 2 ''netplan/mcast_snooping_enable'' = [''netplan'', ''mcast_snooping_enable'']"
  "splitn CHR ''/'' 2 ''netplan/global'' = [''netplan'', ''global'']"
  by (simp_all add: numeral_2_eq_2)

lemma split_examples:
  "split CHR '','' ''secure'' = [''secure'']"
  "split CHR '','' ''a,b'' = [''a'', ''b'']"
  by code_simp+

lemma del_global_fail_mode_quiet:
  "del_global quiet_world ''Bridge'' ''br0'' ''set-fail-mode'' ''secure'' [] =
     (Inr (), [(CheckOutput, [''/usr/bin/ovs-vsctl'', ''get-fail-mode'', ''br0''])])"
  by (simp add: del_global_def GLOBALS_def global_args_def check_output_def split_examples)

lemma del_dict_iface_id_quiet:
  "del_dict quiet_world ''Bridge'' ''br0'' ''external-ids'' ''iface-id'' ''myhostname'' [] =
     (Inr (), [(CheckCall, [''/usr/bin/ovs-vsctl'', ''remove'', ''Bridge'', ''br0'',
        ''external-ids'', ''iface-id='' @ [CHR 0x22] @ ''myhostname'' @ [CHR 0x22]])])"
  by (simp add: del_dict_def check_call_def)

lemma del_col_mcast_quiet:
  "del_col quiet_world ''Bridge'' ''br0'' ''mcast_snooping_enable'' ''true'' [] =
     (Inr (), [(CheckCall, [''/usr/bin/ovs-vsctl'', ''set'', ''Bridge'', ''br0'',
        ''mcast_snooping_enable=false''])])"
  by (simp add: del_col_def DEFAULTS_def check_call_def)

lemma del_col_global_quiet:
  "del_col quiet_world ''Bridge'' ''br0'' ''global'' ''x'' [] =
     (Inr (), [(CheckCall, [''/usr/bin/ovs-vsctl'', ''remove'', ''Bridge'', ''br0'',
        ''global'', ''x''])])"
  by (simp add: del_col_def DEFAULTS_def check_call_def)

lemma splitn_examples2:
  "splitn CHR ''/'' 2 ''netplan/other_config/lacp-time'' = [''netplan'', ''other_config'', ''lacp-time'']"
  "splitn CHR ''/'' 2 ''netplan/rstp_enable'' = [''netplan'', ''rstp_enable'']"
  by (simp_all add: numeral_2_eq_2)

lemma str_in_examples:
  "str_in ''a'' ''a\<newline>b\<newline>''" "str_in ''b'' ''a\<newline>b\<newline>''" "\<not> str_in ''b'' ''a\<newline>''"
  by simp_all

lemma GLOBALS_set_controller:
  "GLOBALS ''set-controller'' = Some (''del-controller'', ''get-controller'')"
  by (simp add: GLOBALS_def)

lemma del_global_controller_both:
  "del_global (controller_world ''a\<newline>b\<newline>'') ''Bridge'' ''br0'' ''set-controller'' ''a,b'' [] =
     (Inr (), [(CheckOutput, [''/usr/bin/ovs-vsctl'', ''get-controller'', ''br0'']),
               (CheckCall, [''/usr/bin/ovs-vsctl'', ''del-controller'', ''br0''])])"
  by (simp add: del_global_def GLOBALS_def global_args_def check_output_def check_call_def
        split_examples)

lemma del_dict_lacp_time_quiet:
  "del_dict quiet_world ''Port'' ''bond0'' ''other_config'' ''lacp-time'' ''fast'' [] =
     (Inr (), [(CheckCall, [''/usr/bin/ovs-vsctl'', ''remove'', ''Port'', ''bond0'',
        ''other_config'', ''lacp-time='' @ [CHR 0x22] @ ''fast'' @ [CHR 0x22]])])"
  by (simp add: del_dict_def check_call_def)

lemma del_col_rstp_quiet:
  "del_col quiet_world ''Bridge'' ''br0'' ''rstp_enable'' ''false'' [] = (Inr (), [])"
  by (simp add: del_col_def DEFAULTS_def)

subsection \<open>What a step appends to the trace\<close>

lemma emitsI: "(\<And>tr. \<exists>ext. snd (f tr) = tr @ ext \<and> list_all P ext) \<Longrightarrow> emits P f"
  by (simp add: emits_def)

lemma emitsD: "emits P f \<Longrightarrow> \<exists>ext. snd (f tr) = tr @ ext \<and> list_all P ext"
  by (simp add: emits_def)

lemma emits_return [simp]: "emits P (\<lambda>tr. (r, tr))"
  by (simp add: emits_def)

lemma emits_check_call: "P (CheckCall, args) \<Longrightarrow> emits P (check_call w args)"
  by (simp add: emits_def)

lemma emits_check_output: "P (CheckOutput, args) \<Longrightarrow> emits P (check_output w args)"
  by (simp add: emits_def)

lemma snd_run_returncode [simp]: "snd (run_returncode w args tr) = tr @ [(Run, args)]"
  by (simp add: run_returncode_def split: proc_result.split)

lemma emits_run_returncode: "P (Run, args) \<Longrightarrow> emits P (run_returncode w args)"
  by (simp add: emits_def)

lemma emits_then_do:
  assumes "emits P f" and "\<And>x. emits P (g x)"
  shows "emits P (\<lambda>tr. then_do (f tr) g)"
proof (rule emitsI)
  fix tr
  from assms(1) obtain ext where e: "snd (f tr) = tr @ ext" "list_all P ext"
    by (auto dest: emitsD)
  show "\<exists>ext. snd (then_do (f tr) g) = tr @ ext \<and> list_all P ext"
  proof (cases "f tr")
    case (Pair r tr')
    with e have tr': "tr' = tr @ ext" by simp
    show ?thesis
    proof (cases r)
      case (Inl err)
      with Pair e show ?thesis by auto
    next
      case (Inr x)
      from assms(2) [of x] obtain ext' where
        "snd (g x tr') = tr' @ ext'" "list_all P ext'"
        by (auto dest: emitsD)
      with Pair Inr tr' e(2) show ?thesis by auto
    qed
  qed
qed

lemma emits_for_each:
  assumes "\<And>x. emits P (body x)"
  shows "emits P (for_each body xs)"
proof (induction xs)
  case Nil
  show ?case by (simp add: emits_def)
next
  case (Cons x xs)
  have "emits P (\<lambda>tr. then_do (body x tr) (\<lambda>_. for_each body xs))"
    using assms Cons by (intro emits_then_do)
  then show ?case by (simp add: emits_def)
qed

lemma emits_if: "emits P f \<Longrightarrow> emits P g \<Longrightarrow> emits P (\<lambda>tr. if c then f tr else g tr)"
  by (cases c) (simp_all add: emits_def)

lemma step1_line_emits:
  "emits (\<lambda>e. (fst t = ''Interface'' \<and> (br_exists_probe w e \<or> stale_delete w ''del-bond-iface'' e))
              \<or> stale_delete w (snd t) e)
     (step1_line w ovs_ifaces t line)"
proof -
  let ?P = "\<lambda>e. (fst t = ''Interface'' \<and> (br_exists_probe w e \<or> stale_delete w ''del-bond-iface'' e))
              \<or> stale_delete w (snd t) e"
  have del: "emits ?P (check_call w [OVS_VSCTL_PATH w, ''--if-exists'', snd t, iface])" for iface
    by (rule emits_check_call) (simp add: stale_delete_def)
  have bond: "emits ?P (check_call w [OVS_VSCTL_PATH w, ''--if-exists'', ''del-bond-iface'', iface])"
    if "fst t = ''Interface''" for iface
    using that by (intro emits_check_call) (simp add: stale_delete_def)
  have probe: "emits ?P (run_returncode w [OVS_VSCTL_PATH w, ''br-exists'', iface])"
    if "fst t = ''Interface''" for iface
    using that by (intro emits_run_returncode) (simp add: br_exists_probe_def)
  have iface: "emits ?P (\<lambda>tr. then_do (run_returncode w [OVS_VSCTL_PATH w, ''br-exists'', iface] tr)
                 (\<lambda>rc tr'.
                    if rc > 0
                    then check_call w [OVS_VSCTL_PATH w, ''--if-exists'', ''del-bond-iface'', iface] tr'
                    else check_call w [OVS_VSCTL_PATH w, ''--if-exists'', snd t, iface] tr'))"
    if "fst t = ''Interface''" for iface
    using that by (intro emits_then_do emits_if probe bond del)
  show ?thesis
  proof (rule emitsI)
    fix tr
    show "\<exists>ext. snd (step1_line w ovs_ifaces t line tr) = tr @ ext \<and> list_all ?P ext"
    proof (cases "str_in ''netplan=true'' line")
      case False
      then show ?thesis by (simp add: step1_line_def)
    next
      case True
      show ?thesis
      proof (cases "split CHR '','' line")
        case Nil
        with True show ?thesis by (simp add: step1_line_def)
      next
        case (Cons iface rest)
        show ?thesis
        proof (cases "iface \<in> ovs_ifaces")
          case in_cfg: True
          with True Cons show ?thesis by (simp add: step1_line_def)
        next
          case stale: False
          show ?thesis
          proof (cases "fst t = ''Interface''")
            case True
            with \<open>str_in ''netplan=true'' line\<close> Cons stale emitsD [OF iface [OF True], of iface tr]
            show ?thesis by (simp add: step1_line_def)
          next
            case False
            with \<open>str_in ''netplan=true'' line\<close> Cons stale emitsD [OF del, of iface tr]
            show ?thesis by (simp add: step1_line_def)
          qed
        qed
      qed
    qed
  qed
qed

lemma step1_table_segment:
  "\<exists>seg. snd (step1_table w ovs_ifaces t tr) = tr @ seg \<and> seg \<noteq> [] \<and>
     table_segment w (fst t)
       (\<lambda>e. (fst t = ''Interface'' \<and> (br_exists_probe w e \<or> stale_delete w ''del-bond-iface'' e))
              \<or> stale_delete w (snd t) e) seg"
proof (cases "check_output w (list_cmd w ''name,external-ids'' (fst t)) tr")
  case (Pair r tr')
  then have tr': "tr' = tr @ [(CheckOutput, list_cmd w ''name,external-ids'' (fst t))]"
    using snd_check_output [of w "list_cmd w ''name,external-ids'' (fst t)" tr] by simp
  show ?thesis
  proof (cases r)
    case (Inl e)
    with Pair tr' show ?thesis
      by (simp add: step1_table_def table_segment_def)
  next
    case (Inr out)
    from emits_for_each [of _ "step1_line w ovs_ifaces t", OF step1_line_emits]
    obtain ext where "snd (for_each (step1_line w ovs_ifaces t) (splitlines out) tr') = tr' @ ext"
      and "list_all (\<lambda>e. (fst t = ''Interface'' \<and> (br_exists_probe w e \<or> stale_delete w ''del-bond-iface'' e))
              \<or> stale_delete w (snd t) e) ext"
      by (blast dest: emitsD)
    with Pair Inr tr' show ?thesis
      by (simp add: step1_table_def table_segment_def)
  qed
qed

lemma table_segment_Nil [simp]: "table_segment w t P []"
  by (simp add: table_segment_def)

lemma table_segment_mono:
  "table_segment w t P seg \<Longrightarrow> (\<And>e. P e \<Longrightarrow> Q e) \<Longrightarrow> table_segment w t Q seg"
  by (cases seg) (auto simp: table_segment_def list_all_iff)

lemma seq_segments:
  assumes "\<exists>seg. snd (f tr) = tr @ seg \<and> A seg"
    and "\<And>tr'. \<exists>seg. snd (g tr') = tr' @ seg \<and> B seg"
    and "B []"
  shows "\<exists>s1 s2. snd (then_do (f tr) (\<lambda>_. g)) = tr @ s1 @ s2 \<and> A s1 \<and> B s2"
proof -
  from assms(1) obtain s1 where s1: "snd (f tr) = tr @ s1" "A s1"
    by blast
  show ?thesis
  proof (cases "f tr")
    case (Pair r tr')
    with s1 have tr': "tr' = tr @ s1" by simp
    show ?thesis
    proof (cases r)
      case (Inl e)
      with Pair tr' have "snd (then_do (f tr) (\<lambda>_. g)) = tr @ s1 @ []"
        by simp
      with s1(2) assms(3) show ?thesis by blast
    next
      case (Inr x)
      from assms(2) [of tr'] obtain s2 where "snd (g tr') = tr' @ s2" "B s2"
        by blast
      with Pair Inr tr' have "snd (then_do (f tr) (\<lambda>_. g)) = tr @ s1 @ s2"
        by simp
      with s1(2) \<open>B s2\<close> show ?thesis by blast
    qed
  qed
qed

lemma step1_segments:
  "\<exists>ps bs is.
     snd (step1 w ovs_ifaces tr) = tr @ ps @ bs @ is \<and>
     table_segment w ''Port'' (stale_delete w ''del-port'') ps \<and>
     table_segment w ''Bridge'' (stale_delete w ''del-br'') bs \<and>
     table_segment w ''Interface''
       (\<lambda>e. br_exists_probe w e \<or> stale_delete w ''del-bond-iface'' e \<or>
            stale_delete w ''del-br'' e) is"
proof -
  let ?I = "table_segment w ''Interface''
       (\<lambda>e. br_exists_probe w e \<or> stale_delete w ''del-bond-iface'' e \<or>
            stale_delete w ''del-br'' e)"
  let ?B = "table_segment w ''Bridge'' (stale_delete w ''del-br'')"
  let ?P = "table_segment w ''Port'' (stale_delete w ''del-port'')"
  let ?T = "step1_table w ovs_ifaces"
  have p: "\<exists>seg. snd (?T (''Port'', ''del-port'') tr') = tr' @ seg \<and> ?P seg" for tr'
    using step1_table_segment [of w ovs_ifaces "(''Port'', ''del-port'')" tr']
    by (auto elim: table_segment_mono)
  have b: "\<exists>seg. snd (?T (''Bridge'', ''del-br'') tr') = tr' @ seg \<and> ?B seg" for tr'
    using step1_table_segment [of w ovs_ifaces "(''Bridge'', ''del-br'')" tr']
    by (auto elim: table_segment_mono)
  have i: "\<exists>seg. snd (?T (''Interface'', ''del-br'') tr') = tr' @ seg \<and> ?I seg" for tr'
    using step1_table_segment [of w ovs_ifaces "(''Interface'', ''del-br'')" tr']
    by (auto elim: table_segment_mono)
  have i': "\<exists>seg. snd (for_each ?T [(''Interface'', ''del-br'')] tr') = tr' @ seg \<and> ?I seg" for tr'
  proof -
    from i [of tr'] obtain seg where s: "snd (?T (''Interface'', ''del-br'') tr') = tr' @ seg" "?I seg"
      by blast
    have "snd (for_each ?T [(''Interface'', ''del-br'')] tr') = snd (?T (''Interface'', ''del-br'') tr')"
      by (cases "?T (''Interface'', ''del-br'') tr'") (auto simp: then_do_def split: sum.splits)
    with s show ?thesis by auto
  qed
  have bi: "\<exists>seg. snd (for_each ?T [(''Bridge'', ''del-br''), (''Interface'', ''del-br'')] tr') = tr' @ seg \<and>
              (\<exists>bs is. seg = bs @ is \<and> ?B bs \<and> ?I is)" for tr'
    using seq_segments [of "?T (''Bridge'', ''del-br'')" tr' ?B
            "for_each ?T [(''Interface'', ''del-br'')]" ?I, OF b i']
    by simp blast
  have "\<exists>s1 s2. snd (for_each ?T [(''Port'', ''del-port''), (''Bridge'', ''del-br''), (''Interface'', ''del-br'')] tr) =
           tr @ s1 @ s2 \<and> ?P s1 \<and> (\<exists>bs is. s2 = bs @ is \<and> ?B bs \<and> ?I is)"
    using seq_segments [of "?T (''Port'', ''del-port'')" tr ?P
            "for_each ?T [(''Bridge'', ''del-br''), (''Interface'', ''del-br'')]"
            "\<lambda>s2. \<exists>bs is. s2 = bs @ is \<and> ?B bs \<and> ?I is", OF p bi]
    by simp
  then show ?thesis
    unfolding step1_def by blast
qed

lemma not_delete_simps [simp]:
  "\<not> is_delete (CheckOutput, args)"
  "\<not> is_delete (Call, args)"
  "\<not> is_delete (Run, args)"
  "length args \<noteq> 4 \<Longrightarrow> \<not> is_delete (CheckCall, args)"
  by (simp_all add: is_delete_def)

lemma del_col_no_delete: "emits (\<lambda>e. \<not> is_delete e) (\<lambda>tr. del_col w type iface column val tr)"
  by (rule emitsI) (simp add: del_col_def split: option.split)

lemma del_dict_no_delete:
  "emits (\<lambda>e. \<not> is_delete e) (\<lambda>tr. del_dict w type iface column key val tr)"
  by (simp add: del_dict_def emits_check_call)

lemma length_global_args: "length (global_args w cmd iface) \<noteq> 4"
  by (simp add: global_args_def split: option.split)

lemma del_global_no_delete:
  "emits (\<lambda>e. \<not> is_delete e) (\<lambda>tr. del_global w type iface key val tr)"
proof (cases "GLOBALS key")
  case None
  then show ?thesis by (simp add: del_global_def)
next
  case (Some p)
  obtain d g where p: "p = (d, g)" by (cases p)
  have "emits (\<lambda>e. \<not> is_delete e)
          (\<lambda>tr. then_do (check_output w (global_args w g i') tr)
                 (\<lambda>out tr'.
                    if list_all (\<lambda>item. str_in item out) (split CHR '','' val)
                    then check_call w (global_args w d i') tr'
                    else (Inr (), tr')))" for i'
    by (intro emits_then_do emits_if emits_check_output emits_check_call emits_return)
       (simp_all add: length_global_args)
  moreover have "d \<noteq> []"
    using Some p GLOBALS_Some_nonempty by blast
  ultimately show ?thesis
    using Some p by (simp add: del_global_def Let_def)
qed

lemma clear_setting_no_delete:
  "emits (\<lambda>e. \<not> is_delete e) (\<lambda>tr. clear_setting w type iface setting val tr)"
proof -
  have untag: "emits (\<lambda>e. \<not> is_delete e) (check_call w (remove_tag w type iface setting))"
    by (rule emits_check_call) (simp add: remove_tag_def)
  show ?thesis
    unfolding clear_setting_def Let_def
    by (intro emits_if emits_return emits_then_do untag del_global_no_delete del_dict_no_delete
          del_col_no_delete)
qed

lemma step2_entry_no_delete: "emits (\<lambda>e. \<not> is_delete e) (step2_entry w t iface entry)"
proof (rule emitsI)
  fix tr
  show "\<exists>ext. snd (step2_entry w t iface entry tr) = tr @ ext \<and> list_all (\<lambda>e. \<not> is_delete e) ext"
    using emitsD [OF clear_setting_no_delete, of w t iface _ _ tr]
    by (auto simp: step2_entry_def split: list.split)
qed

lemma step2_line_no_delete: "emits (\<lambda>e. \<not> is_delete e) (step2_line w t line)"
proof (rule emitsI)
  fix tr
  note e = emitsD [OF emits_for_each, of "\<lambda>e. \<not> is_delete e" "step2_entry w t _",
                   OF step2_entry_no_delete]
  show "\<exists>ext. snd (step2_line w t line tr) = tr @ ext \<and> list_all (\<lambda>e. \<not> is_delete e) ext"
    using e by (auto simp: step2_line_def split: list.split)
qed

lemma step2_table_no_delete: "emits (\<lambda>e. \<not> is_delete e) (\<lambda>tr. step2_table w t tr)"
  unfolding step2_table_def
  by (intro emits_then_do emits_check_output emits_for_each step2_line_no_delete) simp

lemma step2_no_delete: "emits (\<lambda>e. \<not> is_delete e) (step2 w)"
proof -
  have "emits (\<lambda>e. \<not> is_delete e) (for_each (\<lambda>t tr. step2_table w t tr) ts)" for ts
    by (rule emits_for_each) (rule step2_table_no_delete)
  then show ?thesis
    unfolding emits_def step2_def by blast
qed

lemma snd_ovs_active [simp]: "snd (ovs_active w tr) = tr @ [(Call, [OVS_VSCTL_PATH w, ''show''])]"
  by (simp add: ovs_active_def subprocess_call_def split: proc_result.split)




section \<open>The setting cleaner\<close>

text \<open>
  C2 (default-aware scalar reversal). \<^verbatim>\<open>_del_col\<close> issues exactly one command or none:
  for a column without an entry in \<open>DEFAULTS\<close>, one \<^verbatim>\<open>remove\<close> of the recorded value;
  for a column whose default differs from the recorded value, one \<^verbatim>\<open>set\<close> of
  \<^verbatim>\<open>column=default\<close>; for a column whose default is the recorded value, no command
  at all.
\<close>

theorem del_col_default_aware:
  "(DEFAULTS column = None \<longrightarrow>
      snd (del_col w type iface column val tr) =
        tr @ [(CheckCall, [OVS_VSCTL_PATH w, ''remove'', type, iface, column, val])]) \<and>
   (DEFAULTS column = Some d \<and> d \<noteq> val \<longrightarrow>
      snd (del_col w type iface column val tr) =
        tr @ [(CheckCall, [OVS_VSCTL_PATH w, ''set'', type, iface, column @ ''='' @ d])]) \<and>
   (DEFAULTS column = Some val \<longrightarrow>
      del_col w type iface column val tr = (Inr (), tr))"
proof (intro conjI impI)
  assume "DEFAULTS column = None"
  then show "snd (del_col w type iface column val tr) =
        tr @ [(CheckCall, [OVS_VSCTL_PATH w, ''remove'', type, iface, column, val])]"
    by (simp add: del_col_def)
next
  assume a: "DEFAULTS column = Some d \<and> d \<noteq> val"
  then have "d \<noteq> []" using DEFAULTS_Some by auto
  with a show "snd (del_col w type iface column val tr) =
        tr @ [(CheckCall, [OVS_VSCTL_PATH w, ''set'', type, iface, column @ ''='' @ d])]"
    by (simp add: del_col_def)
next
  assume "DEFAULTS column = Some val"
  then show "del_col w type iface column val tr = (Inr (), tr)"
    by (simp add: del_col_def)
qed

theorem del_col_default_aware_witness:
  "DEFAULTS ''other_config'' = None \<and>
   snd (del_col (example_world True (\<lambda>_. Exited 0 [])) ''Bridge'' ''br0''
          ''other_config'' ''x=1'' []) =
     [(CheckCall, [''/usr/bin/ovs-vsctl'', ''remove'', ''Bridge'', ''br0'',
                   ''other_config'', ''x=1''])] \<and>
   DEFAULTS ''mcast_snooping_enable'' = Some ''false'' \<and>
   snd (del_col (example_world True (\<lambda>_. Exited 0 [])) ''Bridge'' ''br0''
          ''mcast_snooping_enable'' ''true'' []) =
     [(CheckCall, [''/usr/bin/ovs-vsctl'', ''set'', ''Bridge'', ''br0'',
                   ''mcast_snooping_enable=false''])] \<and>
   del_col (example_world True (\<lambda>_. Exited 0 [])) ''Bridge'' ''br0''
     ''mcast_snooping_enable'' ''false'' [] = (Inr (), [])"
proof -
  let ?w = "example_world True (\<lambda>_. Exited 0 [])"
  have n: "DEFAULTS ''other_config'' = None"
    by (simp add: DEFAULTS_def)
  have s: "DEFAULTS ''mcast_snooping_enable'' = Some ''false''"
    by (simp add: DEFAULTS_def)
  have 1: "snd (del_col ?w ''Bridge'' ''br0'' ''other_config'' ''x=1'' []) =
     [(CheckCall, [''/usr/bin/ovs-vsctl'', ''remove'', ''Bridge'', ''br0'',
                   ''other_config'', ''x=1''])]"
    using n del_col_default_aware
      [of "''other_config''" ?w "''Bridge''" "''br0''" "''x=1''" "[]", THEN conjunct1]
    by simp
  have 2: "snd (del_col ?w ''Bridge'' ''br0'' ''mcast_snooping_enable'' ''true'' []) =
     [(CheckCall, [''/usr/bin/ovs-vsctl'', ''set'', ''Bridge'', ''br0'',
                   ''mcast_snooping_enable=false''])]"
    using s del_col_default_aware
      [of "''mcast_snooping_enable''" ?w "''Bridge''" "''br0''" "''true''" "[]" "''false''",
       THEN conjunct2, THEN conjunct1]
    by simp
  have 3: "del_col ?w ''Bridge'' ''br0'' ''mcast_snooping_enable'' ''false'' [] = (Inr (), [])"
    using s del_col_default_aware
      [of "''mcast_snooping_enable''" ?w "''Bridge''" "''br0''" "''false''" "[]" "''false''",
       THEN conjunct2, THEN conjunct2]
    by simp
  show ?thesis
    by (intro conjI) (rule n s 1 2 3)+
qed

text \<open>
  C3 (global partial-match guard). For a key of \<open>GLOBALS\<close> whose get command has
  printed \<open>out\<close>, \<^verbatim>\<open>_del_global\<close> runs the get command and then the delete command
  if and only if every token of the recorded value, split at commas, occurs in \<open>out\<close>;
  when a token is missing it runs no delete command and returns without an error.
\<close>

theorem del_global_partial_match_guard:
  assumes "GLOBALS key = Some (del_cmd, get_cmd)"
    and "args_get = global_args w get_cmd (if del_cmd = ''del-ssl'' then None else Some iface)"
    and "args_del = global_args w del_cmd (if del_cmd = ''del-ssl'' then None else Some iface)"
    and "respond w tr args_get = Exited 0 out"
  shows "snd (del_global w type iface key val tr) =
           tr @ [(CheckOutput, args_get)] @
           (if \<forall>item \<in> set (split CHR '','' val). str_in item out
            then [(CheckCall, args_del)] else []) \<and>
         ((\<exists>item \<in> set (split CHR '','' val). \<not> str_in item out) \<longrightarrow>
            fst (del_global w type iface key val tr) = Inr ())"
proof -
  have "del_global w type iface key val tr =
          (if list_all (\<lambda>item. str_in item out) (split CHR '','' val)
           then check_call w args_del (tr @ [(CheckOutput, args_get)])
           else (Inr (), tr @ [(CheckOutput, args_get)]))"
    using assms by (rule del_global_known)
  then show ?thesis
    by (simp add: list_all_iff)
qed

theorem del_global_partial_match_guard_witness:
  "GLOBALS ''set-controller'' = Some (''del-controller'', ''get-controller'') \<and>
   respond (controller_world ''a\<newline>b\<newline>'') []
       [''/usr/bin/ovs-vsctl'', ''get-controller'', ''br0''] =
     Exited 0 ''a\<newline>b\<newline>'' \<and>
   snd (del_global (controller_world ''a\<newline>b\<newline>'') ''Bridge'' ''br0''
          ''set-controller'' ''a,b'' []) =
     [(CheckOutput, [''/usr/bin/ovs-vsctl'', ''get-controller'', ''br0'']),
      (CheckCall, [''/usr/bin/ovs-vsctl'', ''del-controller'', ''br0''])] \<and>
   respond (controller_world ''a\<newline>'') []
       [''/usr/bin/ovs-vsctl'', ''get-controller'', ''br0''] =
     Exited 0 ''a\<newline>'' \<and>
   del_global (controller_world ''a\<newline>'') ''Bridge'' ''br0'' ''set-controller'' ''a,b'' [] =
     (Inr (), [(CheckOutput, [''/usr/bin/ovs-vsctl'', ''get-controller'', ''br0''])])"
proof -
  have g: "GLOBALS ''set-controller'' = Some (''del-controller'', ''get-controller'')"
    by (simp add: GLOBALS_def)
  have a: "[''/usr/bin/ovs-vsctl'', cmd, ''br0''] =
        global_args (controller_world out) cmd
          (if ''del-controller'' = ''del-ssl'' then None else Some ''br0'')" for cmd out
    by (simp add: global_args_def controller_world_def)
  have r: "respond (controller_world out) []
             [''/usr/bin/ovs-vsctl'', ''get-controller'', ''br0''] = Exited 0 out" for out
    by (simp add: controller_world_def)
  have s: "split CHR '','' ''a,b'' = [''a'', ''b'']"
    by code_simp
  have 1: "snd (del_global (controller_world ''a\<newline>b\<newline>'') ''Bridge'' ''br0''
                  ''set-controller'' ''a,b'' []) =
     [(CheckOutput, [''/usr/bin/ovs-vsctl'', ''get-controller'', ''br0'']),
      (CheckCall, [''/usr/bin/ovs-vsctl'', ''del-controller'', ''br0''])]"
    using del_global_partial_match_guard
            [OF g a a r, of "''a\<newline>b\<newline>''" "''Bridge''" "''a,b''"]
    by (simp add: s)
  have 2: "del_global (controller_world ''a\<newline>'') ''Bridge'' ''br0''
             ''set-controller'' ''a,b'' [] =
     (Inr (), [(CheckOutput, [''/usr/bin/ovs-vsctl'', ''get-controller'', ''br0''])])"
    using del_global_partial_match_guard
            [OF g a a r, of "''a\<newline>''" "''Bridge''" "''a,b''"]
    by (simp add: s prod_eq_iff)
  show ?thesis
    by (intro conjI) (rule g r 1 2)+
qed

text \<open>
  C4 (tag removal), as stated: every call of \<^verbatim>\<open>clear_setting\<close> ends with the removal of
  the tag. It does not hold for a call whose handler raises: for a global key without an
  entry in \<open>GLOBALS\<close> the call ends with the exception and has run no command, so the
  tag stays.
\<close>

theorem clear_setting_unconditional_untag_counterexample:
  "clear_setting quiet_world ''Port'' ''p0'' ''netplan/global/set-manager'' ''ptcp:6640'' [] =
     (Inl (Exception ''Reset command unknown for:'' ''set-manager''), []) \<and>
   (CheckCall, remove_tag quiet_world ''Port'' ''p0'' ''netplan/global/set-manager'') \<notin>
     set (snd (clear_setting quiet_world ''Port'' ''p0'' ''netplan/global/set-manager''
                 ''ptcp:6640'' []))"
proof -
  have s: "splitn CHR ''/'' 2 ''netplan/global/set-manager'' = [''netplan'', ''global'', ''set-manager'']"
    by (simp add: numeral_2_eq_2)
  have "clear_setting quiet_world ''Port'' ''p0'' ''netplan/global/set-manager'' ''ptcp:6640'' [] =
     (Inl (Exception ''Reset command unknown for:'' ''set-manager''), [])"
    unfolding clear_setting_def s by (simp add: del_global_def GLOBALS_def)
  then show ?thesis by simp
qed

text \<open>
  C4 (tag removal), amended. In each of the three kinds, when the handler of the kind
  returns without raising, \<^verbatim>\<open>clear_setting\<close> runs exactly one more command, the removal
  of the tag from \<^verbatim>\<open>external-ids\<close>, whether the handler has run a command or not. In
  particular, when the partial-match guard of a global tag suppresses the delete
  command, the get command is followed by the removal of the tag.
\<close>

theorem clear_setting_untag_last:
  "(let parts = splitn CHR ''/'' 2 setting;
        untag = (CheckCall, remove_tag w type iface setting)
    in (length parts = 3 \<and> parts ! 1 = ''global'' \<and>
        del_global w type iface (parts ! 2) val tr = (Inr (), tr') \<longrightarrow>
          snd (clear_setting w type iface setting val tr) = tr' @ [untag]) \<and>
       (length parts = 3 \<and> parts ! 1 \<noteq> ''global'' \<and>
        del_dict w type iface (parts ! 1) (parts ! 2) val tr = (Inr (), tr') \<longrightarrow>
          snd (clear_setting w type iface setting val tr) = tr' @ [untag]) \<and>
       (length parts = 2 \<and> del_col w type iface (parts ! 1) val tr = (Inr (), tr') \<longrightarrow>
          snd (clear_setting w type iface setting val tr) = tr' @ [untag])) \<and>
   (GLOBALS key = Some (del_cmd, get_cmd) \<and>
    args_get = global_args w get_cmd (if del_cmd = ''del-ssl'' then None else Some iface) \<and>
    respond w tr args_get = Exited 0 out \<and>
    (\<exists>item \<in> set (split CHR '','' val). \<not> str_in item out) \<longrightarrow>
      snd (clear_setting w type iface (''netplan/global/'' @ key) val tr) =
        tr @ [(CheckOutput, args_get),
              (CheckCall, remove_tag w type iface (''netplan/global/'' @ key))])"
proof -
  have guard: "snd (clear_setting w type iface (''netplan/global/'' @ key) val tr) =
        tr @ [(CheckOutput, args_get),
              (CheckCall, remove_tag w type iface (''netplan/global/'' @ key))]"
    if g: "GLOBALS key = Some (del_cmd, get_cmd)"
      and a: "args_get = global_args w get_cmd (if del_cmd = ''del-ssl'' then None else Some iface)"
      and r: "respond w tr args_get = Exited 0 out"
      and m: "\<exists>item \<in> set (split CHR '','' val). \<not> str_in item out"
  proof -
    from m have "\<not> list_all (\<lambda>item. str_in item out) (split CHR '','' val)"
      by (simp add: list_all_iff)
    with del_global_known [OF g a refl r, of type val]
    have "del_global w type iface key val tr = (Inr (), tr @ [(CheckOutput, args_get)])"
      by simp
    then show ?thesis
      unfolding clear_setting_def splitn_global by simp
  qed
  have kinds: "length (splitn CHR ''/'' 2 setting) = 3 \<or> length (splitn CHR ''/'' 2 setting) = 2
      \<Longrightarrow> clear_setting w type iface setting val tr =
        then_do
          (if splitn CHR ''/'' 2 setting ! 1 = ''global'' \<and> length (splitn CHR ''/'' 2 setting) > 2
           then del_global w type iface (splitn CHR ''/'' 2 setting ! 2) val tr
           else if length (splitn CHR ''/'' 2 setting) > 2
           then del_dict w type iface (splitn CHR ''/'' 2 setting ! 1)
                  (splitn CHR ''/'' 2 setting ! 2) val tr
           else del_col w type iface (splitn CHR ''/'' 2 setting ! 1) val tr)
          (\<lambda>_. check_call w (remove_tag w type iface setting))"
    by (auto simp: clear_setting_def Let_def)
  have three: "(let parts = splitn CHR ''/'' 2 setting;
        untag = (CheckCall, remove_tag w type iface setting)
    in (length parts = 3 \<and> parts ! 1 = ''global'' \<and>
        del_global w type iface (parts ! 2) val tr = (Inr (), tr') \<longrightarrow>
          snd (clear_setting w type iface setting val tr) = tr' @ [untag]) \<and>
       (length parts = 3 \<and> parts ! 1 \<noteq> ''global'' \<and>
        del_dict w type iface (parts ! 1) (parts ! 2) val tr = (Inr (), tr') \<longrightarrow>
          snd (clear_setting w type iface setting val tr) = tr' @ [untag]) \<and>
       (length parts = 2 \<and> del_col w type iface (parts ! 1) val tr = (Inr (), tr') \<longrightarrow>
          snd (clear_setting w type iface setting val tr) = tr' @ [untag]))"
    by (simp add: Let_def kinds)
  have suppressed: "GLOBALS key = Some (del_cmd, get_cmd) \<and>
    args_get = global_args w get_cmd (if del_cmd = ''del-ssl'' then None else Some iface) \<and>
    respond w tr args_get = Exited 0 out \<and>
    (\<exists>item \<in> set (split CHR '','' val). \<not> str_in item out) \<longrightarrow>
      snd (clear_setting w type iface (''netplan/global/'' @ key) val tr) =
        tr @ [(CheckOutput, args_get),
              (CheckCall, remove_tag w type iface (''netplan/global/'' @ key))]"
    using guard by blast
  from three suppressed show ?thesis
    by (rule conjI)
qed

theorem clear_setting_untag_last_witness:
  "del_global (controller_world ''a\<newline>b\<newline>'') ''Bridge'' ''br0'' ''set-controller'' ''a,b'' [] =
     (Inr (), [(CheckOutput, [''/usr/bin/ovs-vsctl'', ''get-controller'', ''br0'']),
               (CheckCall, [''/usr/bin/ovs-vsctl'', ''del-controller'', ''br0''])]) \<and>
   snd (clear_setting (controller_world ''a\<newline>b\<newline>'') ''Bridge'' ''br0''
          ''netplan/global/set-controller'' ''a,b'' []) =
     [(CheckOutput, [''/usr/bin/ovs-vsctl'', ''get-controller'', ''br0'']),
      (CheckCall, [''/usr/bin/ovs-vsctl'', ''del-controller'', ''br0'']),
      (CheckCall, [''/usr/bin/ovs-vsctl'', ''remove'', ''Bridge'', ''br0'', ''external-ids'',
                   ''netplan/global/set-controller''])] \<and>
   snd (clear_setting quiet_world ''Port'' ''bond0'' ''netplan/other_config/lacp-time'' ''fast'' []) =
     [(CheckCall, [''/usr/bin/ovs-vsctl'', ''remove'', ''Port'', ''bond0'', ''other_config'',
                   ''lacp-time='' @ [CHR 0x22] @ ''fast'' @ [CHR 0x22]]),
      (CheckCall, [''/usr/bin/ovs-vsctl'', ''remove'', ''Port'', ''bond0'', ''external-ids'',
                   ''netplan/other_config/lacp-time''])] \<and>
   del_col quiet_world ''Bridge'' ''br0'' ''rstp_enable'' ''false'' [] = (Inr (), []) \<and>
   snd (clear_setting quiet_world ''Bridge'' ''br0'' ''netplan/rstp_enable'' ''false'' []) =
     [(CheckCall, [''/usr/bin/ovs-vsctl'', ''remove'', ''Bridge'', ''br0'', ''external-ids'',
                   ''netplan/rstp_enable''])] \<and>
   \<not> str_in ''b'' ''a\<newline>'' \<and>
   snd (clear_setting (controller_world ''a\<newline>'') ''Bridge'' ''br0''
          ''netplan/global/set-controller'' ''a,b'' []) =
     [(CheckOutput, [''/usr/bin/ovs-vsctl'', ''get-controller'', ''br0'']),
      (CheckCall, [''/usr/bin/ovs-vsctl'', ''remove'', ''Bridge'', ''br0'', ''external-ids'',
                   ''netplan/global/set-controller''])]"
proof -
  have 1: "snd (clear_setting (controller_world ''a\<newline>b\<newline>'') ''Bridge'' ''br0''
          ''netplan/global/set-controller'' ''a,b'' []) =
     [(CheckOutput, [''/usr/bin/ovs-vsctl'', ''get-controller'', ''br0'']),
      (CheckCall, [''/usr/bin/ovs-vsctl'', ''del-controller'', ''br0'']),
      (CheckCall, [''/usr/bin/ovs-vsctl'', ''remove'', ''Bridge'', ''br0'', ''external-ids'',
                   ''netplan/global/set-controller''])]"
    using clear_setting_untag_last [where setting = "''netplan/global/set-controller''"
               and w = "controller_world ''a\<newline>b\<newline>''" and type = "''Bridge''"
               and iface = "''br0''" and val = "''a,b''" and tr = "[]"
               and tr' = "[(CheckOutput, [''/usr/bin/ovs-vsctl'', ''get-controller'', ''br0'']),
                          (CheckCall, [''/usr/bin/ovs-vsctl'', ''del-controller'', ''br0''])]",
             unfolded Let_def, THEN conjunct1, THEN conjunct1]
    by (simp add: splitn_examples del_global_controller_both remove_tag_def)
  have 2: "snd (clear_setting quiet_world ''Port'' ''bond0'' ''netplan/other_config/lacp-time''
                  ''fast'' []) =
     [(CheckCall, [''/usr/bin/ovs-vsctl'', ''remove'', ''Port'', ''bond0'', ''other_config'',
                   ''lacp-time='' @ [CHR 0x22] @ ''fast'' @ [CHR 0x22]]),
      (CheckCall, [''/usr/bin/ovs-vsctl'', ''remove'', ''Port'', ''bond0'', ''external-ids'',
                   ''netplan/other_config/lacp-time''])]"
    using clear_setting_untag_last [where setting = "''netplan/other_config/lacp-time''"
               and w = quiet_world and type = "''Port''"
               and iface = "''bond0''" and val = "''fast''" and tr = "[]"
               and tr' = "[(CheckCall, [''/usr/bin/ovs-vsctl'', ''remove'', ''Port'', ''bond0'',
                   ''other_config'', ''lacp-time='' @ [CHR 0x22] @ ''fast'' @ [CHR 0x22]])]",
             unfolded Let_def, THEN conjunct1, THEN conjunct2, THEN conjunct1]
    by (simp add: splitn_examples2 del_dict_lacp_time_quiet remove_tag_def)
  have 3: "snd (clear_setting quiet_world ''Bridge'' ''br0'' ''netplan/rstp_enable'' ''false'' []) =
     [(CheckCall, [''/usr/bin/ovs-vsctl'', ''remove'', ''Bridge'', ''br0'', ''external-ids'',
                   ''netplan/rstp_enable''])]"
    using clear_setting_untag_last [where setting = "''netplan/rstp_enable''"
               and w = quiet_world and type = "''Bridge''"
               and iface = "''br0''" and val = "''false''" and tr = "[]" and tr' = "[]",
             unfolded Let_def, THEN conjunct1, THEN conjunct2, THEN conjunct2]
    by (simp add: splitn_examples2 del_col_rstp_quiet remove_tag_def)
  have 4: "snd (clear_setting (controller_world ''a\<newline>'') ''Bridge'' ''br0''
          ''netplan/global/set-controller'' ''a,b'' []) =
     [(CheckOutput, [''/usr/bin/ovs-vsctl'', ''get-controller'', ''br0'']),
      (CheckCall, [''/usr/bin/ovs-vsctl'', ''remove'', ''Bridge'', ''br0'', ''external-ids'',
                   ''netplan/global/set-controller''])]"
    using clear_setting_untag_last [where key = "''set-controller''" and del_cmd = "''del-controller''"
              and get_cmd = "''get-controller''" and w = "controller_world ''a\<newline>''"
              and iface = "''br0''" and tr = "[]" and out = "''a\<newline>''" and val = "''a,b''"
              and args_get = "[''/usr/bin/ovs-vsctl'', ''get-controller'', ''br0'']"
              and type = "''Bridge''", THEN conjunct2]
    by (simp add: GLOBALS_set_controller global_args_def split_examples remove_tag_def)
  show ?thesis
    by (intro conjI) (rule del_global_controller_both del_col_rstp_quiet str_in_examples 1 2 3 4)+
qed

text \<open>
  C6 (classification of tag keys). \<^verbatim>\<open>clear_setting\<close> splits the key at \<^verbatim>\<open>/\<close> into at
  most three parts. With three parts it runs \<^verbatim>\<open>_del_global\<close> when the second part is
  \<^verbatim>\<open>global\<close> and \<^verbatim>\<open>_del_dict\<close> otherwise; with two parts it runs \<^verbatim>\<open>_del_col\<close>; a key
  that starts with \<^verbatim>\<open>netplan/\<close> has two or three parts. The key \<^verbatim>\<open>netplan/global\<close> has
  two parts and is a scalar column.
\<close>

theorem clear_setting_dispatch:
  "(let parts = splitn CHR ''/'' 2 setting;
        untag = (\<lambda>_ :: unit. check_call w (remove_tag w type iface setting))
    in length parts \<le> 3 \<and>
       (length parts = 3 \<and> parts ! 1 = ''global'' \<longrightarrow>
          clear_setting w type iface setting val tr =
            then_do (del_global w type iface (parts ! 2) val tr) untag) \<and>
       (length parts = 3 \<and> parts ! 1 \<noteq> ''global'' \<longrightarrow>
          clear_setting w type iface setting val tr =
            then_do (del_dict w type iface (parts ! 1) (parts ! 2) val tr) untag) \<and>
       (length parts = 2 \<longrightarrow>
          clear_setting w type iface setting val tr =
            then_do (del_col w type iface (parts ! 1) val tr) untag) \<and>
       (startswith setting ''netplan/'' \<longrightarrow> length parts = 2 \<or> length parts = 3)) \<and>
   clear_setting w type iface ''netplan/global'' val tr =
     then_do (del_col w type iface ''global'' val tr)
       (\<lambda>_. check_call w (remove_tag w type iface ''netplan/global''))"
proof -
  have le: "length (splitn CHR ''/'' 2 setting) \<le> 3"
    using length_splitn_le [of "CHR ''/''" 2 setting] by simp
  have ge: "2 \<le> length (splitn CHR ''/'' 2 setting)" if "startswith setting ''netplan/''"
    using that length_splitn_ge2 [of "CHR ''/''" setting 1] netplan_prefix_has_slash [of setting]
    by (simp add: startswith_def numeral_2_eq_2)
  have scalar: "splitn CHR ''/'' 2 ''netplan/global'' = [''netplan'', ''global'']"
    by (simp add: numeral_2_eq_2)
  have "clear_setting w type iface ''netplan/global'' val tr =
     then_do (del_col w type iface ''global'' val tr)
       (\<lambda>_. check_call w (remove_tag w type iface ''netplan/global''))"
    unfolding clear_setting_def scalar by simp
  moreover have "startswith setting ''netplan/'' \<longrightarrow>
      length (splitn CHR ''/'' 2 setting) = 2 \<or> length (splitn CHR ''/'' 2 setting) = 3"
    using le ge by auto
  ultimately show ?thesis
    using le by (simp add: Let_def clear_setting_def)
qed

theorem clear_setting_dispatch_witness:
  "splitn CHR ''/'' 2 ''netplan/global/set-fail-mode'' =
     [''netplan'', ''global'', ''set-fail-mode''] \<and>
   clear_setting quiet_world ''Bridge'' ''br0'' ''netplan/global/set-fail-mode'' ''secure'' [] =
     (Inr (), [(CheckOutput, [''/usr/bin/ovs-vsctl'', ''get-fail-mode'', ''br0'']),
               (CheckCall, [''/usr/bin/ovs-vsctl'', ''remove'', ''Bridge'', ''br0'',
                            ''external-ids'', ''netplan/global/set-fail-mode''])]) \<and>
   splitn CHR ''/'' 2 ''netplan/external-ids/iface-id'' =
     [''netplan'', ''external-ids'', ''iface-id''] \<and>
   clear_setting quiet_world ''Bridge'' ''br0'' ''netplan/external-ids/iface-id'' ''myhostname'' [] =
     (Inr (), [(CheckCall, [''/usr/bin/ovs-vsctl'', ''remove'', ''Bridge'', ''br0'',
                            ''external-ids'',
                            ''iface-id='' @ [CHR 0x22] @ ''myhostname'' @ [CHR 0x22]]),
               (CheckCall, [''/usr/bin/ovs-vsctl'', ''remove'', ''Bridge'', ''br0'',
                            ''external-ids'', ''netplan/external-ids/iface-id''])]) \<and>
   splitn CHR ''/'' 2 ''netplan/mcast_snooping_enable'' =
     [''netplan'', ''mcast_snooping_enable''] \<and>
   clear_setting quiet_world ''Bridge'' ''br0'' ''netplan/mcast_snooping_enable'' ''true'' [] =
     (Inr (), [(CheckCall, [''/usr/bin/ovs-vsctl'', ''set'', ''Bridge'', ''br0'',
                            ''mcast_snooping_enable=false'']),
               (CheckCall, [''/usr/bin/ovs-vsctl'', ''remove'', ''Bridge'', ''br0'',
                            ''external-ids'', ''netplan/mcast_snooping_enable''])]) \<and>
   clear_setting quiet_world ''Bridge'' ''br0'' ''netplan/global'' ''x'' [] =
     (Inr (), [(CheckCall, [''/usr/bin/ovs-vsctl'', ''remove'', ''Bridge'', ''br0'',
                            ''global'', ''x'']),
               (CheckCall, [''/usr/bin/ovs-vsctl'', ''remove'', ''Bridge'', ''br0'',
                            ''external-ids'', ''netplan/global''])])"
proof -
  note d = clear_setting_dispatch [of _ quiet_world "''Bridge''" "''br0''" _ "[]", unfolded Let_def]
  have 1: "clear_setting quiet_world ''Bridge'' ''br0'' ''netplan/global/set-fail-mode'' ''secure'' [] =
     (Inr (), [(CheckOutput, [''/usr/bin/ovs-vsctl'', ''get-fail-mode'', ''br0'']),
               (CheckCall, [''/usr/bin/ovs-vsctl'', ''remove'', ''Bridge'', ''br0'',
                            ''external-ids'', ''netplan/global/set-fail-mode''])])"
    using d [of "''netplan/global/set-fail-mode''" "''secure''", THEN conjunct1, THEN conjunct2,
             THEN conjunct1]
    by (simp add: splitn_examples del_global_fail_mode_quiet remove_tag_def check_call_def)
  have 2: "clear_setting quiet_world ''Bridge'' ''br0'' ''netplan/external-ids/iface-id'' ''myhostname'' [] =
     (Inr (), [(CheckCall, [''/usr/bin/ovs-vsctl'', ''remove'', ''Bridge'', ''br0'',
                            ''external-ids'',
                            ''iface-id='' @ [CHR 0x22] @ ''myhostname'' @ [CHR 0x22]]),
               (CheckCall, [''/usr/bin/ovs-vsctl'', ''remove'', ''Bridge'', ''br0'',
                            ''external-ids'', ''netplan/external-ids/iface-id''])])"
    using d [of "''netplan/external-ids/iface-id''" "''myhostname''", THEN conjunct1,
             THEN conjunct2, THEN conjunct2, THEN conjunct1]
    by (simp add: splitn_examples del_dict_iface_id_quiet remove_tag_def check_call_def)
  have 3: "clear_setting quiet_world ''Bridge'' ''br0'' ''netplan/mcast_snooping_enable'' ''true'' [] =
     (Inr (), [(CheckCall, [''/usr/bin/ovs-vsctl'', ''set'', ''Bridge'', ''br0'',
                            ''mcast_snooping_enable=false'']),
               (CheckCall, [''/usr/bin/ovs-vsctl'', ''remove'', ''Bridge'', ''br0'',
                            ''external-ids'', ''netplan/mcast_snooping_enable''])])"
    using d [of "''netplan/mcast_snooping_enable''" "''true''", THEN conjunct1,
             THEN conjunct2, THEN conjunct2, THEN conjunct2, THEN conjunct1]
    by (simp add: splitn_examples del_col_mcast_quiet remove_tag_def check_call_def)
  have 4: "clear_setting quiet_world ''Bridge'' ''br0'' ''netplan/global'' ''x'' [] =
     (Inr (), [(CheckCall, [''/usr/bin/ovs-vsctl'', ''remove'', ''Bridge'', ''br0'',
                            ''global'', ''x'']),
               (CheckCall, [''/usr/bin/ovs-vsctl'', ''remove'', ''Bridge'', ''br0'',
                            ''external-ids'', ''netplan/global''])])"
    using d [of "''netplan/global''" "''x''", THEN conjunct2]
    by (simp add: del_col_global_quiet remove_tag_def check_call_def)
  show ?thesis
    by (intro conjI) (rule splitn_examples 1 2 3 4)+
qed

text \<open>
  C8 (an unknown global key is fatal). For a key without an entry in \<open>GLOBALS\<close>,
  \<^verbatim>\<open>_del_global\<close> raises and runs no command; \<^verbatim>\<open>clear_setting\<close> on the tag
  \<^verbatim>\<open>netplan/global/<key>\<close> raises the same error and runs no command either, so the
  tag is not removed.
\<close>

theorem unknown_global_key_fatal:
  assumes "GLOBALS key = None"
  shows "del_global w type iface key val tr =
           (Inl (Exception ''Reset command unknown for:'' key), tr) \<and>
         clear_setting w type iface (''netplan/global/'' @ key) val tr =
           (Inl (Exception ''Reset command unknown for:'' key), tr)"
proof -
  have g: "del_global w type iface key val tr =
           (Inl (Exception ''Reset command unknown for:'' key), tr)"
    using assms by (simp add: del_global_def)
  have "clear_setting w type iface (''netplan/global/'' @ key) val tr =
          then_do (del_global w type iface key val tr)
            (\<lambda>_. check_call w (remove_tag w type iface (''netplan/global/'' @ key)))"
    unfolding clear_setting_def splitn_global by simp
  with g show ?thesis by simp
qed

theorem unknown_global_key_fatal_witness:
  "GLOBALS ''set-bogus'' = None \<and>
   del_global quiet_world ''Bridge'' ''br0'' ''set-bogus'' ''x'' [] =
     (Inl (Exception ''Reset command unknown for:'' ''set-bogus''), []) \<and>
   clear_setting quiet_world ''Bridge'' ''br0'' ''netplan/global/set-bogus'' ''x'' [] =
     (Inl (Exception ''Reset command unknown for:'' ''set-bogus''), [])"
proof -
  have g: "GLOBALS ''set-bogus'' = None"
    by (simp add: GLOBALS_def)
  show ?thesis
    using g unknown_global_key_fatal [OF g, of quiet_world "''Bridge''" "''br0''" "''x''" "[]"]
    by simp
qed

section \<open>The reconciliation run\<close>

text \<open>
  C9 (preflight failure signalling). When the tool does not exist,
  \<^verbatim>\<open>apply_ovs_cleanup\<close> raises \<^verbatim>\<open>OvsDbServerNotInstalled\<close> and has run nothing; when the
  tool exists and the probe \<^verbatim>\<open>ovs-vsctl show\<close> exits with a status other than zero, it
  raises \<^verbatim>\<open>OvsDbServerNotRunning\<close> and the probe is the only command it has run.
\<close>

theorem preflight_failure_signaling:
  "(\<not> ovs_installed w \<longrightarrow>
      apply_ovs_cleanup w netdefs tr =
        (Inl (OvsDbServerNotInstalled
               (''Cannot apply OpenvSwitch cleanup: ovs-vsctl is '' @
                [CHR 0x27] @ ''not-found'' @ [CHR 0x27])), tr)) \<and>
   (ovs_installed w \<and> respond w tr [OVS_VSCTL_PATH w, ''show''] = Exited rc out \<and> rc \<noteq> 0 \<longrightarrow>
      apply_ovs_cleanup w netdefs tr =
        (Inl (OvsDbServerNotRunning ''OpenvSwitch database is not running''),
         tr @ [(Call, [OVS_VSCTL_PATH w, ''show''])]))"
  by (simp add: apply_ovs_cleanup_def ovs_active_def subprocess_call_def)

theorem preflight_failure_signaling_witness:
  "\<not> ovs_installed (example_world False (\<lambda>_. Exited 0 [])) \<and>
   apply_ovs_cleanup (example_world False (\<lambda>_. Exited 0 [])) [] [] =
     (Inl (OvsDbServerNotInstalled
            (''Cannot apply OpenvSwitch cleanup: ovs-vsctl is '' @
             [CHR 0x27] @ ''not-found'' @ [CHR 0x27])), []) \<and>
   ovs_installed (example_world True (\<lambda>_. Exited 1 [])) \<and>
   respond (example_world True (\<lambda>_. Exited 1 [])) [] [''/usr/bin/ovs-vsctl'', ''show''] =
     Exited 1 [] \<and>
   apply_ovs_cleanup (example_world True (\<lambda>_. Exited 1 [])) [] [] =
     (Inl (OvsDbServerNotRunning ''OpenvSwitch database is not running''),
      [(Call, [''/usr/bin/ovs-vsctl'', ''show''])])"
  using preflight_failure_signaling
          [of "example_world False (\<lambda>_. Exited 0 [])" "[]" "[]", THEN conjunct1]
        preflight_failure_signaling
          [of "example_world True (\<lambda>_. Exited 1 [])" "[]" "[]" 1 "[]", THEN conjunct2]
  by simp

text \<open>
  C10 (safety of the tag dispatch). The body of the loop over the entries of a row
  skips an entry that does not start with \<^verbatim>\<open>netplan/\<close> or holds no \<^verbatim>\<open>=\<close>; for any
  other entry, splitting once at \<^verbatim>\<open>=\<close> gives a key and a value, the key splits at
  \<^verbatim>\<open>/\<close> into at least two parts, and \<^verbatim>\<open>clear_setting\<close> is called with them. The body
  never ends with an \<^verbatim>\<open>IndexError\<close> or a \<^verbatim>\<open>ValueError\<close>.
\<close>

theorem tag_dispatch_safe:
  "(\<not> (startswith entry ''netplan/'' \<and> str_in ''='' entry) \<longrightarrow>
      step2_entry w t iface entry tr = (Inr (), tr)) \<and>
   (startswith entry ''netplan/'' \<and> str_in ''='' entry \<longrightarrow>
      (\<exists>setting val.
         splitn CHR ''='' 1 entry = [setting, val] \<and>
         2 \<le> length (splitn CHR ''/'' 2 setting) \<and>
         step2_entry w t iface entry tr = clear_setting w t iface setting val tr)) \<and>
   fst (step2_entry w t iface entry tr) \<noteq> Inl IndexError \<and>
   fst (step2_entry w t iface entry tr) \<noteq> Inl ValueError"
proof -
  have skip: "step2_entry w t iface entry tr = (Inr (), tr)"
    if "\<not> (startswith entry ''netplan/'' \<and> str_in ''='' entry)"
    using that by (auto simp: step2_entry_def)
  have call: "\<exists>setting val.
         splitn CHR ''='' 1 entry = [setting, val] \<and>
         2 \<le> length (splitn CHR ''/'' 2 setting) \<and>
         step2_entry w t iface entry tr = clear_setting w t iface setting val tr"
    if c: "startswith entry ''netplan/'' \<and> str_in ''='' entry"
  proof -
    from c have "CHR ''='' \<in> set entry"
      by (simp add: str_in_single)
    then obtain setting val where
      sv: "splitn CHR ''='' 1 entry = [setting, val]" "entry = setting @ CHR ''='' # val"
      using splitn_once by blast
    from c sv(2) have "prefix ''netplan/'' (setting @ CHR ''='' # val)"
      by (simp add: startswith_def)
    then have "prefix ''netplan/'' setting"
      by (rule prefix_before_sep) simp
    then have "CHR ''/'' \<in> set setting"
      by (rule netplan_prefix_has_slash)
    then have "2 \<le> length (splitn CHR ''/'' 2 setting)"
      using length_splitn_ge2 [of "CHR ''/''" setting 1] by (simp add: numeral_2_eq_2)
    moreover have "step2_entry w t iface entry tr = clear_setting w t iface setting val tr"
      using c sv(1) by (simp add: step2_entry_def)
    ultimately show ?thesis
      using sv(1) by blast
  qed
  have "no_unpack_error (step2_entry w t iface entry tr)"
  proof (cases "startswith entry ''netplan/'' \<and> str_in ''='' entry")
    case True
    from call [OF True] show ?thesis
      by (auto simp: no_unpack_error_clear_setting)
  next
    case False
    then show ?thesis by (simp add: skip)
  qed
  with skip call show ?thesis
    unfolding no_unpack_error_def by blast
qed

theorem tag_dispatch_safe_witness:
  "startswith ''netplan/mcast_snooping_enable=false'' ''netplan/'' \<and>
   str_in ''='' ''netplan/mcast_snooping_enable=false'' \<and>
   splitn CHR ''='' 1 ''netplan/mcast_snooping_enable=false'' =
     [''netplan/mcast_snooping_enable'', ''false''] \<and>
   step2_entry quiet_world ''Bridge'' ''br0'' ''netplan/mcast_snooping_enable=false'' [] =
     clear_setting quiet_world ''Bridge'' ''br0'' ''netplan/mcast_snooping_enable'' ''false'' [] \<and>
   \<not> str_in ''='' ''netplan/mcast_snooping_enable'' \<and>
   step2_entry quiet_world ''Bridge'' ''br0'' ''netplan/mcast_snooping_enable'' [] = (Inr (), [])"
proof -
  have 1: "startswith ''netplan/mcast_snooping_enable=false'' ''netplan/''"
    by (simp add: startswith_def)
  have 2: "str_in ''='' ''netplan/mcast_snooping_enable=false''"
    by (simp add: str_in_single)
  have 3: "splitn CHR ''='' 1 ''netplan/mcast_snooping_enable=false'' =
     [''netplan/mcast_snooping_enable'', ''false'']"
    by simp
  have 4: "step2_entry quiet_world ''Bridge'' ''br0'' ''netplan/mcast_snooping_enable=false'' [] =
     clear_setting quiet_world ''Bridge'' ''br0'' ''netplan/mcast_snooping_enable'' ''false'' []"
    using 1 2 3
      tag_dispatch_safe [of "''netplan/mcast_snooping_enable=false''" quiet_world "''Bridge''"
        "''br0''" "[]", THEN conjunct2, THEN conjunct1]
    by auto
  have 5: "\<not> str_in ''='' ''netplan/mcast_snooping_enable''"
    by (simp add: str_in_single)
  have 6: "step2_entry quiet_world ''Bridge'' ''br0'' ''netplan/mcast_snooping_enable'' [] =
     (Inr (), [])"
    using 5
      tag_dispatch_safe [of "''netplan/mcast_snooping_enable''" quiet_world "''Bridge''"
        "''br0''" "[]", THEN conjunct1]
    by simp
  show ?thesis
    by (intro conjI) (rule 1 2 3 4 5 6)+
qed

text \<open>
  C7 (order of the deletions of step 1). The trace of a run splits into consecutive
  parts: what comes before step 1, the events of the table \<^verbatim>\<open>Port\<close>, those of the table
  \<^verbatim>\<open>Bridge\<close>, those of the table \<^verbatim>\<open>Interface\<close>, and what comes after step 1. The first and
  the last part hold no deletion of a stale object; the part of \<^verbatim>\<open>Port\<close> holds, after its
  query, only \<^verbatim>\<open>del-port\<close> commands; the part of \<^verbatim>\<open>Bridge\<close> only \<^verbatim>\<open>del-br\<close> commands; the
  part of \<^verbatim>\<open>Interface\<close> only \<^verbatim>\<open>br-exists\<close> probes and \<^verbatim>\<open>del-bond-iface\<close> or \<^verbatim>\<open>del-br\<close>
  commands. So every deletion for the table \<^verbatim>\<open>Port\<close> comes before every deletion for the
  table \<^verbatim>\<open>Bridge\<close>, and these before every deletion for the table \<^verbatim>\<open>Interface\<close>.
\<close>

theorem phase1_deletion_order:
  "\<exists>pre ps bs is post.
     snd (apply_ovs_cleanup w netdefs tr) = tr @ pre @ ps @ bs @ is @ post \<and>
     list_all (\<lambda>e. \<not> is_delete e) pre \<and>
     table_segment w ''Port'' (stale_delete w ''del-port'') ps \<and>
     table_segment w ''Bridge'' (stale_delete w ''del-br'') bs \<and>
     table_segment w ''Interface''
       (\<lambda>e. br_exists_probe w e \<or> stale_delete w ''del-bond-iface'' e \<or>
            stale_delete w ''del-br'' e) is \<and>
     list_all (\<lambda>e. \<not> is_delete e) post"
proof -
  let ?goal = "\<lambda>r. \<exists>pre ps bs is post.
     snd r = tr @ pre @ ps @ bs @ is @ post \<and>
     list_all (\<lambda>e. \<not> is_delete e) pre \<and>
     table_segment w ''Port'' (stale_delete w ''del-port'') ps \<and>
     table_segment w ''Bridge'' (stale_delete w ''del-br'') bs \<and>
     table_segment w ''Interface''
       (\<lambda>e. br_exists_probe w e \<or> stale_delete w ''del-bond-iface'' e \<or>
            stale_delete w ''del-br'' e) is \<and>
     list_all (\<lambda>e. \<not> is_delete e) post"
  have stop: "?goal (r, tr @ pre)" if "list_all (\<lambda>e. \<not> is_delete e) pre" for pre r
  proof -
    have "snd (r, tr @ pre) = tr @ pre @ [] @ [] @ [] @ []" by simp
    moreover have "list_all (\<lambda>e. \<not> is_delete e) []" by simp
    ultimately show ?thesis
      using that table_segment_Nil by blast
  qed
  show ?thesis
  proof (cases "ovs_installed w")
    case False
    then show ?thesis
      using stop [of "[]"] by (simp add: apply_ovs_cleanup_def)
  next
    case True
    let ?probe = "(Call, [OVS_VSCTL_PATH w, ''show''])"
    obtain a where a: "ovs_active w tr = (a, tr @ [?probe])"
      using snd_ovs_active [of w tr] by (cases "ovs_active w tr") auto
    show ?thesis
    proof (cases "a = Inr True")
      case False
      then have "\<exists>r. apply_ovs_cleanup w netdefs tr = (r, tr @ [?probe])"
        using True a by (cases a) (auto simp: apply_ovs_cleanup_def)
      then obtain r where "apply_ovs_cleanup w netdefs tr = (r, tr @ [?probe])" ..
      moreover have "list_all (\<lambda>e. \<not> is_delete e) [?probe]"
        by simp
      ultimately show ?thesis
        using stop [of "[?probe]" r] by simp
    next
      case active: True
      let ?tr1 = "tr @ [?probe]"
      have run: "apply_ovs_cleanup w netdefs tr =
                   then_do (step1 w (ovs_ifaces_of netdefs) ?tr1) (\<lambda>_. step2 w)"
        using True a active by (simp add: apply_ovs_cleanup_def)
      from step1_segments [of w "ovs_ifaces_of netdefs" ?tr1] obtain ps bs "is" where
        s1: "snd (step1 w (ovs_ifaces_of netdefs) ?tr1) = ?tr1 @ ps @ bs @ is"
        and segs: "table_segment w ''Port'' (stale_delete w ''del-port'') ps"
          "table_segment w ''Bridge'' (stale_delete w ''del-br'') bs"
          "table_segment w ''Interface''
             (\<lambda>e. br_exists_probe w e \<or> stale_delete w ''del-bond-iface'' e \<or>
                  stale_delete w ''del-br'' e) is"
        by blast
      have "\<exists>post. snd (apply_ovs_cleanup w netdefs tr) = ?tr1 @ ps @ bs @ is @ post \<and>
              list_all (\<lambda>e. \<not> is_delete e) post"
      proof (cases "step1 w (ovs_ifaces_of netdefs) ?tr1")
        case (Pair r tr2)
        with s1 have tr2: "tr2 = ?tr1 @ ps @ bs @ is" by simp
        show ?thesis
        proof (cases r)
          case (Inl e)
          with Pair tr2 run show ?thesis by simp
        next
          case (Inr u)
          from emitsD [OF step2_no_delete, of w tr2] obtain post where
            "snd (step2 w tr2) = tr2 @ post" "list_all (\<lambda>e. \<not> is_delete e) post"
            by blast
          with Pair Inr tr2 run show ?thesis by simp
        qed
      qed
      then obtain post where
        "snd (apply_ovs_cleanup w netdefs tr) = tr @ [?probe] @ ps @ bs @ is @ post"
        "list_all (\<lambda>e. \<not> is_delete e) post"
        by auto
      moreover have "list_all (\<lambda>e. \<not> is_delete e) [?probe]"
        by simp
      ultimately show ?thesis
        using segs by blast
    qed
  qed
qed

theorem phase1_deletion_order_witness:
  "snd (apply_ovs_cleanup stale_world [] []) =
     [(Call, [''/usr/bin/ovs-vsctl'', ''show''])] @
     [(CheckOutput, list_cmd stale_world ''name,external-ids'' ''Port''),
      (CheckCall, [''/usr/bin/ovs-vsctl'', ''--if-exists'', ''del-port'', ''bond0''])] @
     [(CheckOutput, list_cmd stale_world ''name,external-ids'' ''Bridge''),
      (CheckCall, [''/usr/bin/ovs-vsctl'', ''--if-exists'', ''del-br'', ''ovs1''])] @
     [(CheckOutput, list_cmd stale_world ''name,external-ids'' ''Interface''),
      (Run, [''/usr/bin/ovs-vsctl'', ''br-exists'', ''patch0'']),
      (CheckCall, [''/usr/bin/ovs-vsctl'', ''--if-exists'', ''del-bond-iface'', ''patch0''])] @
     [(CheckOutput, list_cmd stale_world ''name,external-ids'' ''Port''),
      (CheckOutput, list_cmd stale_world ''name,external-ids'' ''Bridge''),
      (CheckOutput, list_cmd stale_world ''name,external-ids'' ''Interface''),
      (CheckOutput, list_cmd stale_world ''external-ids'' ''Open_vSwitch''),
      (CheckOutput, list_cmd stale_world ''_uuid,external-ids'' ''Controller'')] \<and>
   (\<exists>pre ps bs is post.
      snd (apply_ovs_cleanup stale_world [] []) = pre @ ps @ bs @ is @ post \<and>
      list_all (\<lambda>e. \<not> is_delete e) pre \<and>
      table_segment stale_world ''Port'' (stale_delete stale_world ''del-port'') ps \<and>
      table_segment stale_world ''Bridge'' (stale_delete stale_world ''del-br'') bs \<and>
      table_segment stale_world ''Interface''
        (\<lambda>e. br_exists_probe stale_world e \<or> stale_delete stale_world ''del-bond-iface'' e \<or>
             stale_delete stale_world ''del-br'' e) is \<and>
      list_all (\<lambda>e. \<not> is_delete e) post)"
proof
  show "snd (apply_ovs_cleanup stale_world [] []) =
     [(Call, [''/usr/bin/ovs-vsctl'', ''show''])] @
     [(CheckOutput, list_cmd stale_world ''name,external-ids'' ''Port''),
      (CheckCall, [''/usr/bin/ovs-vsctl'', ''--if-exists'', ''del-port'', ''bond0''])] @
     [(CheckOutput, list_cmd stale_world ''name,external-ids'' ''Bridge''),
      (CheckCall, [''/usr/bin/ovs-vsctl'', ''--if-exists'', ''del-br'', ''ovs1''])] @
     [(CheckOutput, list_cmd stale_world ''name,external-ids'' ''Interface''),
      (Run, [''/usr/bin/ovs-vsctl'', ''br-exists'', ''patch0'']),
      (CheckCall, [''/usr/bin/ovs-vsctl'', ''--if-exists'', ''del-bond-iface'', ''patch0''])] @
     [(CheckOutput, list_cmd stale_world ''name,external-ids'' ''Port''),
      (CheckOutput, list_cmd stale_world ''name,external-ids'' ''Bridge''),
      (CheckOutput, list_cmd stale_world ''name,external-ids'' ''Interface''),
      (CheckOutput, list_cmd stale_world ''external-ids'' ''Open_vSwitch''),
      (CheckOutput, list_cmd stale_world ''_uuid,external-ids'' ''Controller'')]"
    by code_simp
  show "\<exists>pre ps bs is post.
      snd (apply_ovs_cleanup stale_world [] []) = pre @ ps @ bs @ is @ post \<and>
      list_all (\<lambda>e. \<not> is_delete e) pre \<and>
      table_segment stale_world ''Port'' (stale_delete stale_world ''del-port'') ps \<and>
      table_segment stale_world ''Bridge'' (stale_delete stale_world ''del-br'') bs \<and>
      table_segment stale_world ''Interface''
        (\<lambda>e. br_exists_probe stale_world e \<or> stale_delete stale_world ''del-bond-iface'' e \<or>
             stale_delete stale_world ''del-br'' e) is \<and>
      list_all (\<lambda>e. \<not> is_delete e) post"
    using phase1_deletion_order [of stale_world "[]" "[]"] by simp
qed

subsection \<open>Rows without the marker\<close>




text \<open>
  C1 (non-interference), at a row that does not carry the marker. The bridge
  \<^verbatim>\<open>legacy0\<close> has one entry in \<^verbatim>\<open>external-ids\<close>, \<^verbatim>\<open>not-netplan=true\<close>, which is not the
  entry \<^verbatim>\<open>netplan=true\<close>. Step 1 looks for the text \<^verbatim>\<open>netplan=true\<close> anywhere in the line
  of the row, finds it inside that entry, and deletes the bridge.
\<close>

theorem unmarked_row_deleted:
  "\<not> list_ex (\<lambda>entry. entry = ''netplan=true'')
       (split CHR '' '' (strip (CHR 0x22) ''not-netplan=true'')) \<and>
   apply_ovs_cleanup legacy_world [(''ovs0'', \<lparr>backend = ''OpenVSwitch''\<rparr>)] [] =
     (Inr (),
      [(Call, [''/usr/bin/ovs-vsctl'', ''show'']),
       (CheckOutput, [''/usr/bin/ovs-vsctl'', ''--columns=name,external-ids'', ''-f'', ''csv'',
                      ''-d'', ''bare'', ''--no-headings'', ''list'', ''Port'']),
       (CheckOutput, [''/usr/bin/ovs-vsctl'', ''--columns=name,external-ids'', ''-f'', ''csv'',
                      ''-d'', ''bare'', ''--no-headings'', ''list'', ''Bridge'']),
       (CheckCall, [''/usr/bin/ovs-vsctl'', ''--if-exists'', ''del-br'', ''legacy0'']),
       (CheckOutput, [''/usr/bin/ovs-vsctl'', ''--columns=name,external-ids'', ''-f'', ''csv'',
                      ''-d'', ''bare'', ''--no-headings'', ''list'', ''Interface'']),
       (CheckOutput, [''/usr/bin/ovs-vsctl'', ''--columns=name,external-ids'', ''-f'', ''csv'',
                      ''-d'', ''bare'', ''--no-headings'', ''list'', ''Port'']),
       (CheckOutput, [''/usr/bin/ovs-vsctl'', ''--columns=name,external-ids'', ''-f'', ''csv'',
                      ''-d'', ''bare'', ''--no-headings'', ''list'', ''Bridge'']),
       (CheckOutput, [''/usr/bin/ovs-vsctl'', ''--columns=name,external-ids'', ''-f'', ''csv'',
                      ''-d'', ''bare'', ''--no-headings'', ''list'', ''Interface'']),
       (CheckOutput, [''/usr/bin/ovs-vsctl'', ''--columns=external-ids'', ''-f'', ''csv'',
                      ''-d'', ''bare'', ''--no-headings'', ''list'', ''Open_vSwitch'']),
       (CheckOutput, [''/usr/bin/ovs-vsctl'', ''--columns=_uuid,external-ids'', ''-f'', ''csv'',
                      ''-d'', ''bare'', ''--no-headings'', ''list'', ''Controller''])])"
  by code_simp

subsection \<open>A second run\<close>














end
